theory Spec2Isabelle
  imports Main "HOL-Library.AList"
begin

section \<open>The relational store behind the conversation service\<close>

text \<open>
  \<^verbatim>\<open>conversations.ts\<close> talks to a relational store through a query client. The store is a
  managed database outside the repository; what the repository fixes are its tables and
  constraints (the SQL migrations) and the queries the service issues, which are modelled
  by their meaning on lists of rows. A row carries the columns the service reads or writes
  (timestamps are never inspected by the service and are left out). The fields of the
  records are named after the interfaces of the shared schema (\<^verbatim>\<open>Message\<close>,
  \<^verbatim>\<open>InsertMessageReaction\<close>, ...); the field \<open>conversationId\<close> of a message is the column
  \<^verbatim>\<open>conversation_id\<close>. The table \<^verbatim>\<open>message_reaction_counts\<close> has one row per message
  (\<^verbatim>\<open>onConflict: 'message_id'\<close>) and is a map keyed by the message id.
\<close>

record message =
  msg_id :: int
  conversationId :: int
  senderId :: int
  content :: string
  mediaUrl :: "string option"
  mediaType :: "string option"
  transcription :: "string option"
  isTranscribed :: bool
  isLiked :: bool
  isSaved :: bool

record reaction =
  messageId :: int
  userId :: int
  emoji :: string

text \<open>
  The materialised aggregate of one message: \<^verbatim>\<open>Record<string, {count, userIds}>\<close>, stored as
  a JSON column, hence a finite map from emoji to the pair of count and user ids.
\<close>

type_synonym counts = "string \<rightharpoonup> nat \<times> int list"

record db =
  conversations :: "int list"
  conversation_participants :: "(int \<times> int) list"
  messages :: "message list"
  message_reactions :: "reaction list"
  message_reaction_counts :: "int \<rightharpoonup> counts"
  conversations_id_seq :: int
  messages_id_seq :: int

text \<open>
  Every call of the query client resolves to \<^verbatim>\<open>{data, error}\<close> or rejects. Which calls the
  store refuses is an input of the model: a fault plan names, for each call site of the
  service, the error the store answers with (\<open>Rejects\<close>) or that the awaited promise
  rejects (\<open>Throws\<close>). Row-level policies, foreign keys and transport failures all reach
  the service this way. The unique constraints of the migrations are part of the store.
\<close>

datatype fault = Rejects string | Throws

datatype 'a reply = Data 'a | Error string | Thrown

datatype store_call =
    SelectMessage | SelectParticipants | SelectReaction | SelectReactions
  | InsertConversation | InsertParticipants | DeleteConversation
  | InsertMessage | UpdateMessageRow
  | InsertReaction | DeleteReaction | UpsertCounts

type_synonym faults = "store_call \<Rightarrow> fault option"

definition no_faults :: faults where
  "no_faults = (\<lambda>_. None)"

definition answer :: "fault option \<Rightarrow> 'a reply \<Rightarrow> 'a reply" where
  "answer f r = (case f of None \<Rightarrow> r | Some (Rejects e) \<Rightarrow> Error e | Some Throws \<Rightarrow> Thrown)"

text \<open>\<^verbatim>\<open>.single()\<close>: exactly one row, otherwise an error and no data.\<close>

definition single :: "'a list \<Rightarrow> 'a reply" where
  "single rows = (case rows of [r] \<Rightarrow> Data r
                  | _ \<Rightarrow> Error ''JSON object requested, multiple (or no) rows returned'')"

definition select_message :: "db \<Rightarrow> fault option \<Rightarrow> int \<Rightarrow> message reply" where
  "select_message d f i = answer f (single (filter (\<lambda>m. msg_id m = i) (messages d)))"

text \<open>
  The query client hands a message row to the service as an object keyed by the column
  names of the migration; no mapping of names is configured. Reading a property the row
  does not have yields \<^verbatim>\<open>undefined\<close>: \<open>None\<close>. The reaction methods read
  \<^verbatim>\<open>message.conversation_id\<close>, \<^verbatim>\<open>updateMessage\<close> reads \<^verbatim>\<open>message.conversationId\<close>.
\<close>

definition number_columns :: "message \<Rightarrow> (string \<times> int) list" where
  "number_columns m =
     [(''id'', msg_id m), (''conversation_id'', conversationId m), (''sender_id'', senderId m)]"

definition property :: "message \<Rightarrow> string \<Rightarrow> int option" where
  "property m name = map_of (number_columns m) name"

text \<open>
  \<^verbatim>\<open>from('conversation_participants').select('users!inner(...)').eq('conversation_id', c)\<close>:
  one user per participant row of the conversation; the callers only read the user's id,
  which the join equates with the row's \<^verbatim>\<open>user_id\<close>. With \<^verbatim>\<open>undefined\<close> for \<open>c\<close> the
  filter is sent as \<^verbatim>\<open>conversation_id=eq.undefined\<close>, which the store refuses for the
  integer column.
\<close>

definition select_participants :: "db \<Rightarrow> fault option \<Rightarrow> int option \<Rightarrow> int list reply" where
  "select_participants d f conversation =
     answer f
       (case conversation of
          None \<Rightarrow> Error ''invalid input syntax for type integer: undefined''
        | Some c \<Rightarrow>
            Data (map snd (filter (\<lambda>p. fst p = c) (conversation_participants d))))"

definition insert_message ::
  "db \<Rightarrow> fault option \<Rightarrow> int \<Rightarrow> int \<Rightarrow> string \<Rightarrow> string option \<Rightarrow> string option
     \<Rightarrow> (message \<times> db) reply" where
  "insert_message d f c u txt murl mtype =
     (let row = \<lparr>msg_id = messages_id_seq d + 1, conversationId = c, senderId = u,
                  content = txt, mediaUrl = murl, mediaType = mtype, transcription = None,
                  isTranscribed = False, isLiked = False, isSaved = False\<rparr>
      in answer f (Data (row, d\<lparr>messages := messages d @ [row],
                                messages_id_seq := messages_id_seq d + 1\<rparr>)))"


text \<open>
  Updating by primary key with \<^verbatim>\<open>.select().single()\<close>: the patched row is returned when
  exactly one row has the id; otherwise the request is refused and nothing is written.
\<close>

record UpdateMessage =
  set_isLiked :: "bool option"
  set_isSaved :: "bool option"
  set_transcription :: "string option"
  set_isTranscribed :: "bool option"

definition apply_updates :: "UpdateMessage \<Rightarrow> message \<Rightarrow> message" where
  "apply_updates u m =
     m\<lparr>isLiked := (case set_isLiked u of None \<Rightarrow> isLiked m | Some b \<Rightarrow> b),
       isSaved := (case set_isSaved u of None \<Rightarrow> isSaved m | Some b \<Rightarrow> b),
       transcription :=
         (case set_transcription u of None \<Rightarrow> transcription m | Some t \<Rightarrow> Some t),
       isTranscribed := (case set_isTranscribed u of None \<Rightarrow> isTranscribed m | Some b \<Rightarrow> b)\<rparr>"

definition update_message ::
  "db \<Rightarrow> fault option \<Rightarrow> int \<Rightarrow> UpdateMessage \<Rightarrow> (message \<times> db) reply" where
  "update_message d f i u =
     answer f
       (case filter (\<lambda>m. msg_id m = i) (messages d) of
          [m] \<Rightarrow> Data (apply_updates u m,
                       d\<lparr>messages :=
                           map (\<lambda>x. if msg_id x = i then apply_updates u x else x) (messages d)\<rparr>)
        | _ \<Rightarrow> Error ''JSON object requested, multiple (or no) rows returned'')"

text \<open>Reactions: \<^verbatim>\<open>UNIQUE(message_id, user_id, emoji)\<close>.\<close>

definition same_reaction :: "int \<Rightarrow> int \<Rightarrow> string \<Rightarrow> reaction \<Rightarrow> bool" where
  "same_reaction m u e r = (messageId r = m \<and> userId r = u \<and> emoji r = e)"

definition select_reaction :: "db \<Rightarrow> fault option \<Rightarrow> int \<Rightarrow> int \<Rightarrow> string \<Rightarrow> reaction reply" where
  "select_reaction d f m u e = answer f (single (filter (same_reaction m u e) (message_reactions d)))"

definition select_reactions :: "db \<Rightarrow> fault option \<Rightarrow> int \<Rightarrow> reaction list reply" where
  "select_reactions d f m = answer f (Data (filter (\<lambda>r. messageId r = m) (message_reactions d)))"

definition insert_reaction :: "db \<Rightarrow> fault option \<Rightarrow> reaction \<Rightarrow> db reply" where
  "insert_reaction d f r =
     answer f
       (if \<exists>x \<in> set (message_reactions d). same_reaction (messageId r) (userId r) (emoji r) x
        then Error ''duplicate key value violates unique constraint''
        else Data (d\<lparr>message_reactions := message_reactions d @ [r]\<rparr>))"

definition delete_reaction :: "db \<Rightarrow> fault option \<Rightarrow> int \<Rightarrow> int \<Rightarrow> string \<Rightarrow> db reply" where
  "delete_reaction d f m u e =
     answer f (Data (d\<lparr>message_reactions :=
                          filter (\<lambda>r. \<not> same_reaction m u e r) (message_reactions d)\<rparr>))"

text \<open>\<^verbatim>\<open>upsert(..., {onConflict: 'message_id'})\<close>: insert or replace the row of the message.\<close>

definition upsert_counts :: "db \<Rightarrow> fault option \<Rightarrow> int \<Rightarrow> counts \<Rightarrow> db reply" where
  "upsert_counts d f m c =
     answer f (Data (d\<lparr>message_reaction_counts := (message_reaction_counts d)(m \<mapsto> c)\<rparr>))"

text \<open>
  Conversations: the id comes from the table's sequence. Participants are inserted by one
  statement, all rows or none; \<^verbatim>\<open>UNIQUE(conversation_id, user_id)\<close>. Deleting a conversation
  cascades to its participants and messages, and from the messages to their reactions.
\<close>

definition insert_conversation :: "db \<Rightarrow> fault option \<Rightarrow> (int \<times> db) reply" where
  "insert_conversation d f =
     (let c = conversations_id_seq d + 1
      in answer f (Data (c, d\<lparr>conversations := conversations d @ [c],
                               conversations_id_seq := c\<rparr>)))"

definition insert_participants :: "db \<Rightarrow> fault option \<Rightarrow> (int \<times> int) list \<Rightarrow> db reply" where
  "insert_participants d f rows =
     answer f
       (if distinct rows \<and> (\<forall>r \<in> set rows. r \<notin> set (conversation_participants d))
        then Data (d\<lparr>conversation_participants := conversation_participants d @ rows\<rparr>)
        else Error ''duplicate key value violates unique constraint'')"

definition delete_conversation :: "db \<Rightarrow> fault option \<Rightarrow> int \<Rightarrow> db reply" where
  "delete_conversation d f c =
     answer f
       (Data (d\<lparr>conversations := filter (\<lambda>x. x \<noteq> c) (conversations d),
                conversation_participants :=
                  filter (\<lambda>p. fst p \<noteq> c) (conversation_participants d),
                messages := filter (\<lambda>m. conversationId m \<noteq> c) (messages d),
                message_reactions :=
                  filter (\<lambda>r. messageId r \<notin>
                                 set (map msg_id (filter (\<lambda>m. conversationId m = c) (messages d))))
                    (message_reactions d)\<rparr>))"

section \<open>ConversationService\<close>

subsection \<open>getConversationParticipants\<close>

text \<open>
  Returns \<^verbatim>\<open>{participants, error?}\<close>. A rejected awaited call is caught inside the method.
  The conversation id is whatever the caller passes, a number or \<^verbatim>\<open>undefined\<close>.
\<close>

definition getConversationParticipants ::
  "db \<Rightarrow> faults \<Rightarrow> int option \<Rightarrow> int \<Rightarrow> int list \<times> string option" where
  "getConversationParticipants d fs conversation user =
     (case select_participants d (fs SelectParticipants) conversation of
        Thrown \<Rightarrow> ([], Some ''Failed to get participants'')
      | Error e \<Rightarrow> ([], Some e)
      | Data participants \<Rightarrow>
          if user \<notin> set participants
          then ([], Some ''Not authorized to view participants in this conversation'')
          else (participants, None))"

text \<open>
  \<^verbatim>\<open>if (participantError)\<close> tests a string: an absent error and the empty string are both
  falsy.
\<close>

definition truthy :: "string option \<Rightarrow> string option" where
  "truthy e = (case e of None \<Rightarrow> None | Some s \<Rightarrow> if s = [] then None else Some s)"

text \<open>\<^verbatim>\<open>mediaUrl || null\<close>: an absent or empty string becomes \<^verbatim>\<open>null\<close>.\<close>

definition or_null :: "string option \<Rightarrow> string option" where
  "or_null x = truthy x"

subsection \<open>sendMessage\<close>

definition sendMessage ::
  "db \<Rightarrow> faults \<Rightarrow> int \<Rightarrow> int \<Rightarrow> string \<Rightarrow> string option \<Rightarrow> string option
     \<Rightarrow> (string + message) \<times> db" where
  "sendMessage d fs conversation sender txt murl mtype =
     (case getConversationParticipants d fs (Some conversation) sender of
        (participants, participantError) \<Rightarrow>
          (case truthy participantError of
             Some e \<Rightarrow> (Inl e, d)
           | None \<Rightarrow>
               if sender \<notin> set participants
               then (Inl ''Not authorized to send messages in this conversation'', d)
               else (case insert_message d (fs InsertMessage) conversation sender txt
                            (or_null murl) (or_null mtype) of
                       Thrown \<Rightarrow> (Inl ''Failed to send message'', d)
                     | Error e \<Rightarrow> (Inl e, d)
                     | Data (m, d') \<Rightarrow> (Inr m, d'))))"


subsection \<open>createConversation\<close>

text \<open>
  The outcome of the compensating delete is not inspected: \<^verbatim>\<open>await ...delete().eq(...)\<close>
  is followed by the return of the failure. A rejected promise anywhere lands in the
  \<^verbatim>\<open>catch\<close> block.
\<close>

definition createConversation :: "db \<Rightarrow> faults \<Rightarrow> int list \<Rightarrow> (string + int) \<times> db" where
  "createConversation d fs participantIds =
     (case insert_conversation d (fs InsertConversation) of
        Thrown \<Rightarrow> (Inl ''Failed to create conversation'', d)
      | Error e \<Rightarrow> (Inl ''Failed to create conversation'', d)
      | Data (conversation, d1) \<Rightarrow>
          (case insert_participants d1 (fs InsertParticipants)
                  (map (\<lambda>u. (conversation, u)) participantIds) of
             Thrown \<Rightarrow> (Inl ''Failed to create conversation'', d1)
           | Error e \<Rightarrow>
               (case delete_conversation d1 (fs DeleteConversation) conversation of
                  Thrown \<Rightarrow> (Inl ''Failed to create conversation'', d1)
                | Error e' \<Rightarrow> (Inl ''Failed to add participants to conversation'', d1)
                | Data d2 \<Rightarrow> (Inl ''Failed to add participants to conversation'', d2))
           | Data d2 \<Rightarrow> (Inr conversation, d2)))"

subsection \<open>updateMessage\<close>

definition updateMessage ::
  "db \<Rightarrow> faults \<Rightarrow> int \<Rightarrow> int \<Rightarrow> UpdateMessage \<Rightarrow> (string + message) \<times> db" where
  "updateMessage d fs message user updates =
     (case select_message d (fs SelectMessage) message of
        Thrown \<Rightarrow> (Inl ''Failed to update message'', d)
      | Error e \<Rightarrow> (Inl ''Message not found'', d)
      | Data msg \<Rightarrow>
          (case getConversationParticipants d fs (property msg ''conversationId'') user of
             (participants, participantError) \<Rightarrow>
               (case truthy participantError of
                  Some e \<Rightarrow> (Inl e, d)
                | None \<Rightarrow>
                    if user \<notin> set participants
                    then (Inl ''Not authorized to update this message'', d)
                    else (case update_message d (fs UpdateMessageRow) message updates of
                            Thrown \<Rightarrow> (Inl ''Failed to update message'', d)
                          | Error e \<Rightarrow> (Inl e, d)
                          | Data (updatedMessage, d') \<Rightarrow> (Inr updatedMessage, d')))))"

subsection \<open>updateReactionCounts\<close>

text \<open>
  \<^verbatim>\<open>counts\<close> starts as the object literal \<^verbatim>\<open>{}\<close>, whose prototype is \<^verbatim>\<open>Object.prototype\<close>:
  \<^verbatim>\<open>counts[k]\<close> finds the inherited member when \<open>k\<close> is one of the names below and no
  own property \<open>k\<close> exists. Each inherited member is truthy, so \<^verbatim>\<open>!counts[k]\<close> is false
  and no entry is created; that member has no \<^verbatim>\<open>userIds\<close>, and
  \<^verbatim>\<open>counts[k].userIds.push(...)\<close> raises a TypeError, which leaves the \<^verbatim>\<open>forEach\<close> and is
  caught by the method's \<^verbatim>\<open>catch\<close> block: \<open>None\<close> below.
\<close>

definition object_prototype_keys :: "string list" where
  "object_prototype_keys =
     [''constructor'', ''__proto__'', ''hasOwnProperty'', ''isPrototypeOf'',
      ''propertyIsEnumerable'', ''toLocaleString'', ''toString'', ''valueOf'',
      ''__defineGetter__'', ''__defineSetter__'', ''__lookupGetter__'', ''__lookupSetter__'']"

fun build_counts :: "reaction list \<Rightarrow> counts \<Rightarrow> counts option" where
  "build_counts [] counts = Some counts"
| "build_counts (r # rs) counts =
     (case counts (emoji r) of
        Some (n, us) \<Rightarrow> build_counts rs (counts(emoji r \<mapsto> (n + 1, us @ [userId r])))
      | None \<Rightarrow>
          if emoji r \<in> set object_prototype_keys then None
          else build_counts rs (counts(emoji r \<mapsto> (0 + 1, [] @ [userId r]))))"

text \<open>The method returns nothing and never fails its caller; every failure is logged.\<close>

definition updateReactionCounts :: "db \<Rightarrow> faults \<Rightarrow> int \<Rightarrow> db" where
  "updateReactionCounts d fs message =
     (case select_reactions d (fs SelectReactions) message of
        Thrown \<Rightarrow> d
      | Error e \<Rightarrow> d
      | Data reactions \<Rightarrow>
          (case build_counts reactions Map.empty of
             None \<Rightarrow> d
           | Some counts \<Rightarrow>
               (case upsert_counts d (fs UpsertCounts) message counts of
                  Thrown \<Rightarrow> d
                | Error e \<Rightarrow> d
                | Data d' \<Rightarrow> d')))"

subsection \<open>addReaction and removeReaction\<close>

definition addReaction :: "db \<Rightarrow> faults \<Rightarrow> int \<Rightarrow> int \<Rightarrow> string \<Rightarrow> (string + unit) \<times> db" where
  "addReaction d fs message user e =
     (case select_message d (fs SelectMessage) message of
        Thrown \<Rightarrow> (Inl ''Failed to add reaction'', d)
      | Error err \<Rightarrow> (Inl ''Message not found'', d)
      | Data msg \<Rightarrow>
          (case getConversationParticipants d fs (property msg ''conversation_id'') user of
             (participants, participantError) \<Rightarrow>
               (case truthy participantError of
                  Some err \<Rightarrow> (Inl err, d)
                | None \<Rightarrow>
                    if user \<notin> set participants
                    then (Inl ''Not authorized to react to this message'', d)
                    else (case select_reaction d (fs SelectReaction) message user e of
                            Thrown \<Rightarrow> (Inl ''Failed to add reaction'', d)
                          | Data existingReaction \<Rightarrow> (Inl ''Reaction already exists'', d)
                          | Error err \<Rightarrow>
                              (case insert_reaction d (fs InsertReaction)
                                      \<lparr>messageId = message, userId = user, emoji = e\<rparr> of
                                 Thrown \<Rightarrow> (Inl ''Failed to add reaction'', d)
                               | Error err' \<Rightarrow> (Inl err', d)
                               | Data d1 \<Rightarrow> (Inr (), updateReactionCounts d1 fs message))))))"

definition removeReaction :: "db \<Rightarrow> faults \<Rightarrow> int \<Rightarrow> int \<Rightarrow> string \<Rightarrow> (string + unit) \<times> db" where
  "removeReaction d fs message user e =
     (case select_message d (fs SelectMessage) message of
        Thrown \<Rightarrow> (Inl ''Failed to remove reaction'', d)
      | Error err \<Rightarrow> (Inl ''Message not found'', d)
      | Data msg \<Rightarrow>
          (case getConversationParticipants d fs (property msg ''conversation_id'') user of
             (participants, participantError) \<Rightarrow>
               (case truthy participantError of
                  Some err \<Rightarrow> (Inl err, d)
                | None \<Rightarrow>
                    if user \<notin> set participants
                    then (Inl ''Not authorized to remove reaction from this message'', d)
                    else (case delete_reaction d (fs DeleteReaction) message user e of
                            Thrown \<Rightarrow> (Inl ''Failed to remove reaction'', d)
                          | Error err \<Rightarrow> (Inl err, d)
                          | Data d1 \<Rightarrow> (Inr (), updateReactionCounts d1 fs message)))))"

text \<open>The authorization boundary: a participant row for the pair exists.\<close>

definition is_participant :: "db \<Rightarrow> int \<Rightarrow> int \<Rightarrow> bool" where
  "is_participant d c u = ((c, u) \<in> set (conversation_participants d))"

section \<open>RealtimeService\<close>

text \<open>
  The service keeps \<^verbatim>\<open>channels: Map<string, RealtimeChannel>\<close> and \<^verbatim>\<open>userId\<close>. The
  realtime client it drives keeps its own registry of open channels:
  \<^verbatim>\<open>supabase.channel(name)\<close> opens a new channel on a topic, \<^verbatim>\<open>supabase.removeChannel\<close>
  closes one, \<^verbatim>\<open>channel.track\<close> publishes a presence record on one. A channel is named by
  a handle; the Map is an association list in insertion order (\<^verbatim>\<open>Map.set\<close> replaces in
  place or appends, as \<^const>\<open>AList.update\<close> does). \<open>published\<close> lists the presence
  records handed to \<^verbatim>\<open>channel.track\<close>, oldest first, without their \<^verbatim>\<open>lastTyped\<close> time
  stamp. The callbacks a caller passes to a \<^verbatim>\<open>subscribeTo...\<close> method live in the channel
  object and are not part of this state; the one the properties below are about, the
  presence handler of \<^verbatim>\<open>subscribeToTyping\<close>, is the function \<open>typingUsers\<close>.
\<close>

record presence =
  presence_userId :: int
  presence_username :: string
  presence_typing :: bool

record realtime =
  channels :: "(string \<times> nat) list"
  service_userId :: "int option"
  client_channels :: "(nat \<times> string) list"
  channel_seq :: nat
  published :: "(nat \<times> presence) list"

definition initial :: realtime where
  "initial = \<lparr>channels = [], service_userId = None, client_channels = [], channel_seq = 0,
              published = []\<rparr>"

text \<open>Template literals render a conversation id in decimal.\<close>

function digits :: "nat \<Rightarrow> string" where
  "digits n = (if n < 10 then [''0123456789'' ! n]
               else digits (n div 10) @ [''0123456789'' ! (n mod 10)])"
  by pat_completeness auto
termination
  by (relation "measure (\<lambda>n. n)") auto

declare digits.simps [simp del]

definition number_string :: "int \<Rightarrow> string" where
  "number_string i = (if i < 0 then CHR ''-'' # digits (nat (- i)) else digits (nat i))"

definition initialize :: "int \<Rightarrow> realtime \<Rightarrow> realtime" where
  "initialize user s = s\<lparr>service_userId := Some user\<rparr>"

text \<open>\<^verbatim>\<open>!this.userId\<close>: \<^verbatim>\<open>null\<close> and \<^verbatim>\<open>0\<close> are falsy.\<close>

definition no_user :: "int option \<Rightarrow> bool" where
  "no_user u = (case u of None \<Rightarrow> True | Some i \<Rightarrow> i = 0)"

definition supabase_channel :: "string \<Rightarrow> realtime \<Rightarrow> nat \<times> realtime" where
  "supabase_channel name s =
     (channel_seq s,
      s\<lparr>client_channels := client_channels s @ [(channel_seq s, name)],
        channel_seq := Suc (channel_seq s)\<rparr>)"

definition supabase_removeChannel :: "nat \<Rightarrow> realtime \<Rightarrow> realtime" where
  "supabase_removeChannel channel s =
     s\<lparr>client_channels := filter (\<lambda>c. fst c \<noteq> channel) (client_channels s)\<rparr>"

definition unsubscribe :: "string \<Rightarrow> realtime \<Rightarrow> realtime" where
  "unsubscribe channelName s =
     (case map_of (channels s) channelName of
        None \<Rightarrow> s
      | Some channel \<Rightarrow>
          (let s1 = supabase_removeChannel channel s
           in s1\<lparr>channels := AList.delete channelName (channels s1)\<rparr>))"

definition unsubscribeAll :: "realtime \<Rightarrow> realtime" where
  "unsubscribeAll s =
     (let s1 = fold (\<lambda>(channelName, channel). supabase_removeChannel channel) (channels s) s
      in s1\<lparr>channels := []\<rparr>)"

definition cleanup :: "realtime \<Rightarrow> realtime" where
  "cleanup s = (unsubscribeAll s)\<lparr>service_userId := None\<rparr>"

text \<open>
  Every \<^verbatim>\<open>subscribeTo...\<close> method has the same skeleton: remove the existing channel of the
  name, open a channel with the method's handlers, subscribe it, store it under the name.
\<close>

definition subscribe_named :: "string \<Rightarrow> realtime \<Rightarrow> nat \<times> realtime" where
  "subscribe_named channelName s =
     (case supabase_channel channelName (unsubscribe channelName s) of
        (channel, s1) \<Rightarrow>
          (channel, s1\<lparr>channels := AList.update channelName channel (channels s1)\<rparr>))"

definition subscribeToMessages :: "int \<Rightarrow> realtime \<Rightarrow> nat \<times> realtime" where
  "subscribeToMessages conversation s =
     subscribe_named (''messages:'' @ number_string conversation) s"

definition subscribeToUserStatus :: "realtime \<Rightarrow> nat \<times> realtime" where
  "subscribeToUserStatus s = subscribe_named ''user-status'' s"

definition subscribeToNotifications :: "realtime \<Rightarrow> nat option \<times> realtime" where
  "subscribeToNotifications s =
     (if no_user (service_userId s) then (None, s)
      else (case subscribe_named ''notifications'' s of (channel, s1) \<Rightarrow> (Some channel, s1)))"

definition subscribeToMessageReactions :: "realtime \<Rightarrow> nat \<times> realtime" where
  "subscribeToMessageReactions s = subscribe_named ''message-reactions'' s"

definition subscribeToConversationParticipants :: "int \<Rightarrow> realtime \<Rightarrow> nat \<times> realtime" where
  "subscribeToConversationParticipants conversation s =
     subscribe_named (''participants:'' @ number_string conversation) s"

definition subscribeToTyping :: "int \<Rightarrow> realtime \<Rightarrow> nat \<times> realtime" where
  "subscribeToTyping conversation s =
     subscribe_named (''typing:'' @ number_string conversation) s"

text \<open>
  The handler \<^verbatim>\<open>subscribeToTyping\<close> registers for the presence \<^verbatim>\<open>sync\<close> event: from the
  channel's presence state (key to list of presence records) it computes the list handed
  to \<^verbatim>\<open>onTypingChange\<close>. \<^verbatim>\<open>this.userId\<close> is read when the event fires.
\<close>

definition typingUsers :: "int option \<Rightarrow> (string \<times> presence list) list \<Rightarrow> (int \<times> string) list" where
  "typingUsers self presenceState =
     concat (map (\<lambda>(key, presences).
                    case presences of
                      [] \<Rightarrow> []
                    | p # rest \<Rightarrow>
                        if presence_typing p \<and> Some (presence_userId p) \<noteq> self
                        then [(presence_userId p, presence_username p)]
                        else [])
                 presenceState)"

definition sendTyping :: "int \<Rightarrow> string \<Rightarrow> bool \<Rightarrow> realtime \<Rightarrow> realtime" where
  "sendTyping conversation username isTyping s =
     (case service_userId s of
        None \<Rightarrow> s
      | Some user \<Rightarrow>
          if user = 0 then s
          else (case map_of (channels s) (''typing:'' @ number_string conversation) of
                  None \<Rightarrow> s
                | Some channel \<Rightarrow>
                    s\<lparr>published := published s @
                        [(channel, \<lparr>presence_userId = user, presence_username = username,
                                    presence_typing = isTyping\<rparr>)]\<rparr>))"

text \<open>Sequences of calls on the service.\<close>

datatype call =
    Initialize int
  | SubscribeToMessages int
  | SubscribeToUserStatus
  | SubscribeToNotifications
  | SubscribeToMessageReactions
  | SubscribeToConversationParticipants int
  | SubscribeToTyping int
  | SendTyping int string bool
  | Unsubscribe string
  | UnsubscribeAll
  | Cleanup

fun step :: "call \<Rightarrow> realtime \<Rightarrow> realtime" where
  "step (Initialize u) s = initialize u s"
| "step (SubscribeToMessages c) s = snd (subscribeToMessages c s)"
| "step SubscribeToUserStatus s = snd (subscribeToUserStatus s)"
| "step SubscribeToNotifications s = snd (subscribeToNotifications s)"
| "step SubscribeToMessageReactions s = snd (subscribeToMessageReactions s)"
| "step (SubscribeToConversationParticipants c) s = snd (subscribeToConversationParticipants c s)"
| "step (SubscribeToTyping c) s = snd (subscribeToTyping c s)"
| "step (SendTyping c n t) s = sendTyping c n t s"
| "step (Unsubscribe n) s = unsubscribe n s"
| "step UnsubscribeAll s = unsubscribeAll s"
| "step Cleanup s = cleanup s"

definition run :: "call list \<Rightarrow> realtime \<Rightarrow> realtime" where
  "run cs s = fold step cs s"


section \<open>Constraints of the schema and example states\<close>

text \<open>The primary key of \<^verbatim>\<open>messages\<close> and the unique constraint of \<^verbatim>\<open>message_reactions\<close>.\<close>

definition messages_pkey :: "db \<Rightarrow> bool" where
  "messages_pkey d = distinct (map msg_id (messages d))"

definition reaction_key :: "reaction \<Rightarrow> int \<times> int \<times> string" where
  "reaction_key r = (messageId r, userId r, emoji r)"

definition reactions_unique :: "db \<Rightarrow> bool" where
  "reactions_unique d = distinct (map reaction_key (message_reactions d))"

text \<open>
  Conversation 1 with participants 1 and 2, first without messages, then with the message
  \<open>hi\<close> of user 1.
\<close>

definition scenario :: db where
  "scenario = \<lparr>conversations = [1], conversation_participants = [(1, 1), (1, 2)],
               messages = [], message_reactions = [], message_reaction_counts = Map.empty,
               conversations_id_seq = 1, messages_id_seq = 0\<rparr>"

definition hi :: message where
  "hi = \<lparr>msg_id = 10, conversationId = 1, senderId = 1, content = ''hi'', mediaUrl = None,
          mediaType = None, transcription = None, isTranscribed = False, isLiked = False,
          isSaved = False\<rparr>"

definition like :: UpdateMessage where
  "like = \<lparr>set_isLiked = Some True, set_isSaved = None, set_transcription = None,
           set_isTranscribed = None\<rparr>"

definition chat :: db where
  "chat = \<lparr>conversations = [1], conversation_participants = [(1, 1), (1, 2)],
           messages = [hi], message_reactions = [], message_reaction_counts = Map.empty,
           conversations_id_seq = 1, messages_id_seq = 10\<rparr>"

text \<open>
  The stored aggregate entry of an emoji, and the entry the reaction rows call for: the
  number of rows of the message with that emoji and their user ids in row order, no entry
  when there is no such row. The aggregate of a message is consistent when the two agree
  on every emoji.
\<close>

definition reactions_of :: "db \<Rightarrow> int \<Rightarrow> reaction list" where
  "reactions_of d m = filter (\<lambda>r. messageId r = m) (message_reactions d)"

definition aggregate :: "db \<Rightarrow> int \<Rightarrow> string \<Rightarrow> (nat \<times> int list) option" where
  "aggregate d m e = (case message_reaction_counts d m of None \<Rightarrow> None | Some c \<Rightarrow> c e)"

definition tally :: "reaction list \<Rightarrow> string \<Rightarrow> (nat \<times> int list) option" where
  "tally rows e =
     (case filter (\<lambda>r. emoji r = e) rows of
        [] \<Rightarrow> None
      | r # rs \<Rightarrow> Some (length (r # rs), map userId (r # rs)))"

definition consistent :: "db \<Rightarrow> int \<Rightarrow> bool" where
  "consistent d m = (\<forall>e. aggregate d m e = tally (reactions_of d m) e)"

text \<open>No row refers to the id the conversation sequence hands out next.\<close>

definition next_conversation_unused :: "db \<Rightarrow> bool" where
  "next_conversation_unused d =
     (let c = conversations_id_seq d + 1
      in c \<notin> set (conversations d) \<and>
         (\<forall>p \<in> set (conversation_participants d). fst p \<noteq> c) \<and>
         (\<forall>m \<in> set (messages d). conversationId m \<noteq> c))"

text \<open>
  Further states of the example: user 2 has reacted to \<open>hi\<close> while the upsert of the
  aggregate was refused (and logged); user 2 has reacted and the aggregate was written;
  user 3 has reacted and left the conversation since.
  Fault plans: the store refuses the upsert; the insert of participants; that insert and
  the delete of the conversation.
\<close>

definition thumbs :: reaction where
  "thumbs = \<lparr>messageId = 10, userId = 2, emoji = ''thumbsup''\<rparr>"

definition stale_chat :: db where
  "stale_chat = chat\<lparr>message_reactions := [thumbs]\<rparr>"

definition reacted_chat :: db where
  "reacted_chat =
     chat\<lparr>message_reactions := [thumbs],
          message_reaction_counts := [10 \<mapsto> [''thumbsup'' \<mapsto> (1, [2])]]\<rparr>"

definition left_chat :: db where
  "left_chat = chat\<lparr>message_reactions := [\<lparr>messageId = 10, userId = 3, emoji = ''thumbsup''\<rparr>]\<rparr>"

definition upsert_refused :: faults where
  "upsert_refused = no_faults(UpsertCounts := Some (Rejects ''upsert refused''))"

definition insert_refused :: faults where
  "insert_refused = no_faults(InsertParticipants := Some (Rejects ''insert refused''))"

definition delete_refused :: faults where
  "delete_refused = no_faults(InsertParticipants := Some (Rejects ''insert refused''),
                              DeleteConversation := Some (Rejects ''delete refused''))"


text \<open>A presence state: user 1 (alice) is typing, user 2 (bob) is not.\<close>

definition typing_scene :: "(string \<times> presence list) list" where
  "typing_scene =
     [(''1'', [\<lparr>presence_userId = 1, presence_username = ''alice'', presence_typing = True\<rparr>]),
      (''2'', [\<lparr>presence_userId = 2, presence_username = ''bob'', presence_typing = False\<rparr>])]"




text \<open>
  The users a presence state marks as typing, other than the given one: every presence
  record of every key counts. The second state has a key with two records, of which only
  the second is typing.
\<close>

definition marked_typing :: "int option \<Rightarrow> (string \<times> presence list) list \<Rightarrow> (int \<times> string) list" where
  "marked_typing self presenceState =
     concat (map (\<lambda>(key, presences).
                    map (\<lambda>p. (presence_userId p, presence_username p))
                      (filter (\<lambda>p. presence_typing p \<and> Some (presence_userId p) \<noteq> self)
                         presences))
                 presenceState)"

definition second_session :: "(string \<times> presence list) list" where
  "second_session =
     [(''2'', [\<lparr>presence_userId = 2, presence_username = ''bob'', presence_typing = False\<rparr>,
              \<lparr>presence_userId = 2, presence_username = ''bob'', presence_typing = True\<rparr>])]"

section \<open>Properties\<close>

lemma answer_simps [simp]:
  "answer None r = r"
  "answer (Some (Rejects e)) r = Error e"
  "answer (Some Throws) r = Thrown"
  by (simp_all add: answer_def)

lemma mem_participants:
  "u \<in> snd ` {p \<in> set ps. fst p = c} \<longleftrightarrow> (c, u) \<in> set ps"
  by force

lemma property_conversation_id [simp]:
  "property msg ''conversation_id'' = Some (conversationId msg)"
  by (simp add: property_def number_columns_def)

lemma property_conversationId [simp]: "property msg ''conversationId'' = None"
  by (simp add: property_def number_columns_def)

lemma getConversationParticipants_non_member:
  assumes "\<not> is_participant d c u"
  shows "\<exists>e. getConversationParticipants d fs (Some c) u = ([], Some e)"
proof (cases "fs SelectParticipants")
  case None
  with assms show ?thesis
    by (simp add: getConversationParticipants_def select_participants_def is_participant_def
        mem_participants)
next
  case (Some f)
  then show ?thesis
    by (cases f) (simp_all add: getConversationParticipants_def select_participants_def)
qed

lemma getConversationParticipants_member:
  assumes "is_participant d c u" "fs SelectParticipants = None"
  shows "\<exists>ps. getConversationParticipants d fs (Some c) u = (ps, None) \<and> u \<in> set ps"
  using assms
  by (simp add: getConversationParticipants_def select_participants_def is_participant_def
        mem_participants)

lemma getConversationParticipants_non_member_answered:
  assumes "\<not> is_participant d c u" "fs SelectParticipants = None"
  shows "getConversationParticipants d fs (Some c) u =
           ([], Some ''Not authorized to view participants in this conversation'')"
  using assms
  by (simp add: getConversationParticipants_def select_participants_def is_participant_def
        mem_participants)

lemma filter_key_unique:
  assumes "distinct (map f xs)" "x \<in> set xs"
  shows "filter (\<lambda>y. f y = f x) xs = [x]"
  using assms
proof (induction xs)
  case Nil
  then show ?case by simp
next
  case (Cons a xs)
  show ?case
  proof (cases "a = x")
    case True
    with Cons.prems have "\<forall>y \<in> set xs. f y \<noteq> f x" by (metis distinct.simps(2) image_eqI list.simps(9) set_map)
    then have "filter (\<lambda>y. f y = f x) xs = []" by (simp add: filter_empty_conv)
    with True show ?thesis by simp
  next
    case False
    with Cons.prems have "x \<in> set xs" "f a \<noteq> f x" "distinct (map f xs)" by force+
    with Cons.IH show ?thesis by simp
  qed
qed

lemma select_message_found:
  assumes "messages_pkey d" "msg \<in> set (messages d)"
  shows "select_message d None (msg_id msg) = Data msg"
  using filter_key_unique [of msg_id "messages d" msg] assms
  by (simp add: select_message_def single_def messages_pkey_def)

lemma select_message_missing:
  assumes "m \<notin> msg_id ` set (messages d)"
  shows "\<exists>e. select_message d None m = Error e"
proof -
  from assms have "filter (\<lambda>x. msg_id x = m) (messages d) = []"
    by (auto simp: filter_empty_conv)
  then show ?thesis by (simp add: select_message_def single_def)
qed

subsection \<open>sendMessage\<close>

text \<open>
  C4. A sender without a participant row for the conversation: \<^verbatim>\<open>sendMessage\<close> fails and
  the store is left as it was, so no message row is created, whatever the store answers.
  When the membership query is answered, the failure is the authorization failure raised
  by \<^verbatim>\<open>getConversationParticipants\<close>.
\<close>

theorem sendMessage_non_participant:
  assumes "\<not> is_participant d c u"
  shows "(\<exists>e. fst (sendMessage d fs c u txt murl mtype) = Inl e) \<and>
         snd (sendMessage d fs c u txt murl mtype) = d \<and>
         (fs SelectParticipants = None \<longrightarrow>
            fst (sendMessage d fs c u txt murl mtype) =
              Inl ''Not authorized to view participants in this conversation'')"
proof -
  obtain e where e: "getConversationParticipants d fs (Some c) u = ([], Some e)"
    using getConversationParticipants_non_member [OF assms] by blast
  have 1: "(\<exists>e. fst (sendMessage d fs c u txt murl mtype) = Inl e) \<and>
         snd (sendMessage d fs c u txt murl mtype) = d"
    by (simp add: sendMessage_def e truthy_def)
  have 2: "fs SelectParticipants = None \<Longrightarrow>
            fst (sendMessage d fs c u txt murl mtype) =
              Inl ''Not authorized to view participants in this conversation''"
    using getConversationParticipants_non_member_answered [OF assms]
    by (simp add: sendMessage_def truthy_def)
  from 1 2 show ?thesis by blast
qed

theorem sendMessage_non_participant_witness:
  "\<not> is_participant scenario 1 3 \<and>
   sendMessage scenario no_faults 1 3 ''hey'' None None =
     (Inl ''Not authorized to view participants in this conversation'', scenario)"
  using sendMessage_non_participant [of scenario 1 3 no_faults "''hey''" None None]
  by (simp add: is_participant_def scenario_def no_faults_def prod_eq_iff)

text \<open>
  C5. Empty content is not refused: for participant 1 of conversation 1 and a store that
  answers every call, \<^verbatim>\<open>sendMessage\<close> with the empty string returns the inserted row and
  the message table holds a row with empty content. The test \<^verbatim>\<open>content.min(1)\<close> of
  \<^verbatim>\<open>insertMessageSchema\<close> is never applied by the method.
\<close>

theorem sendMessage_empty_content:
  "fst (sendMessage scenario no_faults 1 1 [] None None) =
     Inr \<lparr>msg_id = 1, conversationId = 1, senderId = 1, content = [], mediaUrl = None,
          mediaType = None, transcription = None, isTranscribed = False, isLiked = False,
          isSaved = False\<rparr> \<and>
   map content (messages (snd (sendMessage scenario no_faults 1 1 [] None None))) = [[]]"
  by (simp add: sendMessage_def getConversationParticipants_def select_participants_def
      scenario_def no_faults_def truthy_def or_null_def insert_message_def Let_def)

subsection \<open>updateMessage\<close>

lemma updateMessage_missing:
  assumes "fs SelectMessage = None" "m \<notin> msg_id ` set (messages d)"
  shows "updateMessage d fs m u upd = (Inl ''Message not found'', d)"
  using select_message_missing [OF assms(2)] assms(1) by (auto simp: updateMessage_def)

lemma updateMessage_existing:
  assumes "fs SelectMessage = None" "fs SelectParticipants = None"
    and "messages_pkey d" "msg \<in> set (messages d)"
  shows "updateMessage d fs (msg_id msg) u upd =
           (Inl ''invalid input syntax for type integer: undefined'', d)"
proof -
  have sel: "select_message d (fs SelectMessage) (msg_id msg) = Data msg"
    using select_message_found [OF assms(3,4)] assms(1) by simp
  show ?thesis
    by (simp add: updateMessage_def sel getConversationParticipants_def select_participants_def
        assms(2) truthy_def)
qed

text \<open>
  C7. Participant 2 of conversation 1 sets the like flag of the message \<open>hi\<close> on a store
  that answers every call. The message row is found, but it has no property
  \<^verbatim>\<open>conversationId\<close>: the membership query is sent for \<^verbatim>\<open>undefined\<close> and refused, and
  \<^verbatim>\<open>updateMessage\<close> returns the store's error with the message unpatched. User 3, not a
  participant, gets the same error instead of the authorization failure. Only the
  failure for an id without a message is as stated.
\<close>

theorem updateMessage_participant_refused:
  "hi \<in> set (messages chat) \<and> msg_id hi = 10 \<and> is_participant chat (conversationId hi) 2 \<and>
   updateMessage chat no_faults 10 2 like =
     (Inl ''invalid input syntax for type integer: undefined'', chat) \<and>
   \<not> is_participant chat (conversationId hi) 3 \<and>
   updateMessage chat no_faults 10 3 like =
     (Inl ''invalid input syntax for type integer: undefined'', chat) \<and>
   updateMessage chat no_faults 11 2 like = (Inl ''Message not found'', chat)"
proof -
  have m: "hi \<in> set (messages chat)" "msg_id hi = 10" "messages_pkey chat"
    "11 \<notin> msg_id ` set (messages chat)"
    by (simp_all add: chat_def hi_def messages_pkey_def)
  have p: "is_participant chat (conversationId hi) 2" "\<not> is_participant chat (conversationId hi) 3"
    by (simp_all add: chat_def hi_def is_participant_def)
  have f: "no_faults SelectMessage = None" "no_faults SelectParticipants = None"
    by (simp_all add: no_faults_def)
  from updateMessage_existing [of no_faults chat hi, OF f m(3,1)] m(2)
  have e: "updateMessage chat no_faults 10 u like =
             (Inl ''invalid input syntax for type integer: undefined'', chat)" for u
    by simp
  from m p e updateMessage_missing [of no_faults 11 chat, OF f(1) m(4)] show ?thesis by simp
qed

subsection \<open>createConversation\<close>

lemma insert_participants_refused:
  assumes "(\<exists>e. f = Some (Rejects e)) \<or> (f = None \<and> \<not> distinct ids)"
  shows "\<exists>e. insert_participants d f (map (\<lambda>u. (c, u)) ids) = Error e"
  using assms by (auto simp: insert_participants_def distinct_map)

text \<open>
  C2 (as amended). The conversation row is created and the store refuses the insert of the
  participants. Then \<^verbatim>\<open>createConversation\<close> returns a failure and no participant row of
  the call exists afterwards. When the store carries out the compensating delete, the
  failure is ``Failed to add participants to conversation'', no conversation row with the
  new id remains, and a store in which nothing referred to that id is left as it was
  except for the advanced sequence.
\<close>

theorem createConversation_compensates:
  assumes "fs InsertConversation = None"
    and "(\<exists>e. fs InsertParticipants = Some (Rejects e)) \<or>
         (fs InsertParticipants = None \<and> \<not> distinct ids)"
  shows "(\<exists>err. fst (createConversation d fs ids) = Inl err) \<and>
         conversation_participants (snd (createConversation d fs ids)) =
           (if fs DeleteConversation = None
            then filter (\<lambda>p. fst p \<noteq> conversations_id_seq d + 1) (conversation_participants d)
            else conversation_participants d) \<and>
         (fs DeleteConversation = None \<longrightarrow>
            fst (createConversation d fs ids) = Inl ''Failed to add participants to conversation'' \<and>
            conversations_id_seq d + 1 \<notin> set (conversations (snd (createConversation d fs ids))) \<and>
            (next_conversation_unused d \<longrightarrow>
               snd (createConversation d fs ids) =
                 d\<lparr>conversations_id_seq := conversations_id_seq d + 1\<rparr>))"
proof -
  let ?c = "conversations_id_seq d + 1"
  let ?d1 = "d\<lparr>conversations := conversations d @ [?c], conversations_id_seq := ?c\<rparr>"
  have ins: "insert_conversation d (fs InsertConversation) = Data (?c, ?d1)"
    using assms(1) by (simp add: insert_conversation_def Let_def)
  from insert_participants_refused [OF assms(2)]
  obtain e where e: "insert_participants ?d1 (fs InsertParticipants) (map (\<lambda>u. (?c, u)) ids) = Error e"
    by blast
  have run: "createConversation d fs ids =
      (case delete_conversation ?d1 (fs DeleteConversation) ?c of
         Thrown \<Rightarrow> (Inl ''Failed to create conversation'', ?d1)
       | Error e' \<Rightarrow> (Inl ''Failed to add participants to conversation'', ?d1)
       | Data d2 \<Rightarrow> (Inl ''Failed to add participants to conversation'', d2))"
    by (simp add: createConversation_def ins e)
  show ?thesis
  proof (cases "fs DeleteConversation")
    case None
    have unused: "?d1\<lparr>conversations := filter (\<lambda>x. x \<noteq> ?c) (conversations ?d1),
                conversation_participants :=
                  filter (\<lambda>p. fst p \<noteq> ?c) (conversation_participants ?d1),
                messages := filter (\<lambda>m. conversationId m \<noteq> ?c) (messages ?d1),
                message_reactions :=
                  filter (\<lambda>r. messageId r \<notin>
                                 set (map msg_id (filter (\<lambda>m. conversationId m = ?c) (messages ?d1))))
                    (message_reactions ?d1)\<rparr> = d\<lparr>conversations_id_seq := ?c\<rparr>"
      if "next_conversation_unused d"
    proof -
      from that have 1: "filter (\<lambda>x. x \<noteq> ?c) (conversations d) = conversations d"
        and 2: "filter (\<lambda>p. fst p \<noteq> ?c) (conversation_participants d) = conversation_participants d"
        and 3: "filter (\<lambda>m. conversationId m \<noteq> ?c) (messages d) = messages d"
        and 4: "filter (\<lambda>m. conversationId m = ?c) (messages d) = []"
        by (auto simp: next_conversation_unused_def Let_def filter_id_conv filter_empty_conv)
      show ?thesis by (simp add: 1 2 3 4)
    qed
    with None show ?thesis
      by (simp add: run delete_conversation_def)
  next
    case (Some f)
    then show ?thesis by (cases f) (simp_all add: run delete_conversation_def)
  qed
qed

theorem createConversation_compensates_witness:
  "insert_refused InsertConversation = None \<and>
   insert_refused InsertParticipants = Some (Rejects ''insert refused'') \<and>
   insert_refused DeleteConversation = None \<and> next_conversation_unused scenario \<and>
   createConversation scenario insert_refused [1, 2] =
     (Inl ''Failed to add participants to conversation'', scenario\<lparr>conversations_id_seq := 2\<rparr>)"
proof -
  have h1: "insert_refused InsertConversation = None"
    and h2: "(\<exists>e. insert_refused InsertParticipants = Some (Rejects e)) \<or>
         (insert_refused InsertParticipants = None \<and> \<not> distinct [1, 2 :: int])"
    and h3: "insert_refused DeleteConversation = None"
    and h4: "insert_refused InsertParticipants = Some (Rejects ''insert refused'')"
    by (simp_all add: insert_refused_def no_faults_def)
  have h5: "next_conversation_unused scenario" "conversations_id_seq scenario + 1 = 2"
    by (simp_all add: next_conversation_unused_def scenario_def)
  from createConversation_compensates [of insert_refused "[1, 2]" scenario, OF h1 h2] h3 h5
  have "fst (createConversation scenario insert_refused [1, 2]) =
          Inl ''Failed to add participants to conversation''"
    "snd (createConversation scenario insert_refused [1, 2]) = scenario\<lparr>conversations_id_seq := 2\<rparr>"
    by auto
  with h1 h3 h4 h5 show ?thesis by (simp add: prod_eq_iff)
qed

text \<open>
  Without the condition on the delete the statement fails: when the store refuses the
  compensating delete as well, its outcome is not inspected, the failure is returned, and
  the new conversation row 2 stays.
\<close>

theorem createConversation_compensates_counterexample:
  "delete_refused InsertConversation = None \<and>
   delete_refused InsertParticipants = Some (Rejects ''insert refused'') \<and>
   fst (createConversation scenario delete_refused [1, 2]) =
     Inl ''Failed to add participants to conversation'' \<and>
   conversations scenario = [1] \<and>
   conversations (snd (createConversation scenario delete_refused [1, 2])) = [1, 2]"
  by (simp add: createConversation_def delete_refused_def no_faults_def scenario_def
      insert_conversation_def insert_participants_def delete_conversation_def Let_def)

subsection \<open>The reaction aggregate\<close>

lemma build_counts_tally:
  "build_counts rows acc = Some c \<Longrightarrow>
   c e = (case acc e of
            None \<Rightarrow> tally rows e
          | Some (n, us) \<Rightarrow>
              Some (n + length (filter (\<lambda>r. emoji r = e) rows),
                    us @ map userId (filter (\<lambda>r. emoji r = e) rows)))"
proof (induction rows arbitrary: acc)
  case Nil
  then show ?case by (auto simp: tally_def split: option.splits)
next
  case (Cons r rows)
  show ?case
  proof (cases "acc (emoji r)")
    case None
    with Cons.prems have fresh: "emoji r \<notin> set object_prototype_keys"
      and rest: "build_counts rows (acc(emoji r \<mapsto> (0 + 1, [] @ [userId r]))) = Some c"
      by (auto split: if_splits)
    from Cons.IH [OF rest] None show ?thesis
      by (auto simp: tally_def split: option.splits list.splits)
  next
    case (Some p)
    obtain n us where p: "p = (n, us)" by (cases p)
    with Some Cons.prems
    have rest: "build_counts rows (acc(emoji r \<mapsto> (n + 1, us @ [userId r]))) = Some c"
      by simp
    from Cons.IH [OF rest] Some p show ?thesis
      by (auto simp: tally_def split: option.splits list.splits)
  qed
qed

lemma build_counts_defined:
  "\<forall>r \<in> set rows. emoji r \<notin> set object_prototype_keys \<Longrightarrow> \<exists>c. build_counts rows acc = Some c"
  by (induction rows arbitrary: acc) (auto split: option.splits)

lemma build_counts_empty:
  "build_counts rows Map.empty = Some c \<Longrightarrow> c e = tally rows e"
  using build_counts_tally [of rows Map.empty c e] by simp

lemma updateReactionCounts_cases:
  "updateReactionCounts d fs m = d \<or>
   (\<exists>c. build_counts (reactions_of d m) Map.empty = Some c \<and>
        updateReactionCounts d fs m =
          d\<lparr>message_reaction_counts := (message_reaction_counts d)(m \<mapsto> c)\<rparr>)"
proof (cases "fs SelectReactions")
  case (Some f)
  then show ?thesis
    by (cases f) (simp_all add: updateReactionCounts_def select_reactions_def)
next
  case None
  show ?thesis
  proof (cases "build_counts (reactions_of d m) Map.empty")
    case None
    with \<open>fs SelectReactions = None\<close> show ?thesis
      by (simp add: updateReactionCounts_def select_reactions_def reactions_of_def)
  next
    case (Some c)
    show ?thesis
    proof (cases "fs UpsertCounts")
      case None
      with Some \<open>fs SelectReactions = None\<close> show ?thesis
        by (simp add: updateReactionCounts_def select_reactions_def reactions_of_def
            upsert_counts_def)
    next
      case (Some f)
      with \<open>build_counts (reactions_of d m) Map.empty = Some c\<close> \<open>fs SelectReactions = None\<close>
      show ?thesis
        by (cases f)
          (simp_all add: updateReactionCounts_def select_reactions_def reactions_of_def
            upsert_counts_def)
    qed
  qed
qed

lemma updateReactionCounts_rows [simp]:
  "message_reactions (updateReactionCounts d fs m) = message_reactions d"
  using updateReactionCounts_cases [of d fs m] by auto

lemma updateReactionCounts_messages [simp]:
  "messages (updateReactionCounts d fs m) = messages d"
  using updateReactionCounts_cases [of d fs m] by auto

lemma updateReactionCounts_other:
  "m' \<noteq> m \<Longrightarrow>
   message_reaction_counts (updateReactionCounts d fs m) m' = message_reaction_counts d m'"
  using updateReactionCounts_cases [of d fs m] by auto

lemma updateReactionCounts_recomputes:
  assumes "fs SelectReactions = None" "fs UpsertCounts = None"
    and "\<forall>r \<in> set (reactions_of d m). emoji r \<notin> set object_prototype_keys"
  shows "consistent (updateReactionCounts d fs m) m"
proof -
  from build_counts_defined [OF assms(3)]
  obtain c where c: "build_counts (reactions_of d m) Map.empty = Some c" by blast
  with assms(1,2) have upd: "updateReactionCounts d fs m =
      d\<lparr>message_reaction_counts := (message_reaction_counts d)(m \<mapsto> c)\<rparr>"
    by (simp add: updateReactionCounts_def select_reactions_def reactions_of_def
        upsert_counts_def)
  show ?thesis
    unfolding consistent_def
    by (simp add: upd aggregate_def reactions_of_def
        build_counts_empty [OF c, unfolded reactions_of_def])
qed

lemma updateReactionCounts_keeps_consistent:
  assumes "consistent d m"
  shows "aggregate (updateReactionCounts d fs m) m e = aggregate d m e"
  using updateReactionCounts_cases [of d fs m]
proof
  assume "updateReactionCounts d fs m = d"
  then show ?thesis by simp
next
  assume "\<exists>c. build_counts (reactions_of d m) Map.empty = Some c \<and>
        updateReactionCounts d fs m =
          d\<lparr>message_reaction_counts := (message_reaction_counts d)(m \<mapsto> c)\<rparr>"
  then obtain c where c: "build_counts (reactions_of d m) Map.empty = Some c"
    and upd: "updateReactionCounts d fs m =
          d\<lparr>message_reaction_counts := (message_reaction_counts d)(m \<mapsto> c)\<rparr>" by blast
  have "aggregate (updateReactionCounts d fs m) m e = c e"
    by (simp add: upd aggregate_def)
  also have "\<dots> = tally (reactions_of d m) e" by (rule build_counts_empty [OF c])
  also have "\<dots> = aggregate d m e" using assms by (simp add: consistent_def)
  finally show ?thesis .
qed

subsection \<open>addReaction\<close>

lemma insert_reaction_duplicate:
  assumes "\<exists>r \<in> set (message_reactions d). same_reaction m u e r"
  shows "insert_reaction d f \<lparr>messageId = m, userId = u, emoji = e\<rparr> \<noteq> Data d'"
  using assms by (cases f rule: option.exhaust; cases "the f")
    (auto simp: insert_reaction_def answer_def split: fault.splits)

lemma addReaction_result:
  "(\<exists>err. addReaction d fs m u e = (Inl err, d)) \<or>
   (\<exists>d1. insert_reaction d (fs InsertReaction) \<lparr>messageId = m, userId = u, emoji = e\<rparr> = Data d1 \<and>
         addReaction d fs m u e = (Inr (), updateReactionCounts d1 fs m))"
  by (auto simp: addReaction_def split: reply.splits prod.splits option.splits)

lemma filter_same_reaction:
  assumes "reactions_unique d" "r \<in> set (message_reactions d)" "same_reaction m u e r"
  shows "filter (same_reaction m u e) (message_reactions d) = [r]"
proof -
  have "same_reaction m u e = (\<lambda>y. reaction_key y = reaction_key r)"
    using assms(3) by (auto simp: same_reaction_def reaction_key_def fun_eq_iff)
  with filter_key_unique [of reaction_key "message_reactions d" r] assms(1,2)
  show ?thesis by (simp add: reactions_unique_def)
qed

text \<open>
  C1 (as amended). When a reaction row with the triple exists, \<^verbatim>\<open>addReaction\<close> fails and
  leaves the store as it was, whatever the store answers. With the reads answered and the
  constraints of the schema in force, the failure is ``Reaction already exists'' when the
  user is a participant of the message's conversation, and the authorization failure
  when the user is not.
\<close>

theorem addReaction_existing:
  assumes "\<exists>r \<in> set (message_reactions d). same_reaction m u e r"
  shows "(\<exists>err. fst (addReaction d fs m u e) = Inl err) \<and>
         snd (addReaction d fs m u e) = d \<and>
         (fs SelectMessage = None \<and> fs SelectParticipants = None \<and> fs SelectReaction = None \<and>
          messages_pkey d \<and> reactions_unique d \<and>
          (\<exists>msg \<in> set (messages d). msg_id msg = m \<and> is_participant d (conversationId msg) u)
          \<longrightarrow> fst (addReaction d fs m u e) = Inl ''Reaction already exists'') \<and>
         (fs SelectMessage = None \<and> fs SelectParticipants = None \<and> messages_pkey d \<and>
          (\<exists>msg \<in> set (messages d). msg_id msg = m \<and>
             \<not> is_participant d (conversationId msg) u)
          \<longrightarrow> fst (addReaction d fs m u e) =
                Inl ''Not authorized to view participants in this conversation'')"
proof -
  have fails: "\<exists>err. addReaction d fs m u e = (Inl err, d)"
    using addReaction_result [of d fs m u e] insert_reaction_duplicate [OF assms] by blast
  have dup: "fst (addReaction d fs m u e) = Inl ''Reaction already exists''"
    if f: "fs SelectMessage = None" "fs SelectParticipants = None" "fs SelectReaction = None"
      and k: "messages_pkey d" "reactions_unique d"
      and msg: "msg \<in> set (messages d)" "msg_id msg = m" "is_participant d (conversationId msg) u"
    for msg
  proof -
    have sel: "select_message d (fs SelectMessage) m = Data msg"
      using select_message_found [OF k(1) msg(1)] msg(2) f(1) by simp
    from getConversationParticipants_member [of d "conversationId msg" u fs, OF msg(3) f(2)]
    obtain ps where ps: "getConversationParticipants d fs (Some (conversationId msg)) u = (ps, None)"
      "u \<in> set ps" by blast
    from assms obtain r where r: "r \<in> set (message_reactions d)" "same_reaction m u e r"
      by blast
    have ex: "select_reaction d (fs SelectReaction) m u e = Data r"
      using filter_same_reaction [OF k(2) r] f(3) by (simp add: select_reaction_def single_def)
    show ?thesis by (simp add: addReaction_def sel ps truthy_def ex)
  qed
  have denied: "fst (addReaction d fs m u e) =
                  Inl ''Not authorized to view participants in this conversation''"
    if f: "fs SelectMessage = None" "fs SelectParticipants = None"
      and k: "messages_pkey d"
      and msg: "msg \<in> set (messages d)" "msg_id msg = m"
        "\<not> is_participant d (conversationId msg) u"
    for msg
  proof -
    have sel: "select_message d (fs SelectMessage) m = Data msg"
      using select_message_found [OF k msg(1)] msg(2) f(1) by simp
    from getConversationParticipants_non_member_answered
           [of d "conversationId msg" u fs, OF msg(3) f(2)]
    show ?thesis by (simp add: addReaction_def sel truthy_def)
  qed
  from fails have 1: "(\<exists>err. fst (addReaction d fs m u e) = Inl err) \<and>
         snd (addReaction d fs m u e) = d" by auto
  from dup have 2: "fs SelectMessage = None \<and> fs SelectParticipants = None \<and>
          fs SelectReaction = None \<and> messages_pkey d \<and> reactions_unique d \<and>
          (\<exists>msg \<in> set (messages d). msg_id msg = m \<and> is_participant d (conversationId msg) u)
          \<longrightarrow> fst (addReaction d fs m u e) = Inl ''Reaction already exists''" by blast
  from denied have 3: "fs SelectMessage = None \<and> fs SelectParticipants = None \<and>
          messages_pkey d \<and>
          (\<exists>msg \<in> set (messages d). msg_id msg = m \<and>
             \<not> is_participant d (conversationId msg) u)
          \<longrightarrow> fst (addReaction d fs m u e) =
                Inl ''Not authorized to view participants in this conversation''" by blast
  from 1 2 3 show ?thesis by blast
qed

theorem addReaction_existing_witness:
  "(\<exists>r \<in> set (message_reactions stale_chat). same_reaction 10 2 ''thumbsup'' r) \<and>
   no_faults SelectMessage = None \<and> messages_pkey stale_chat \<and> reactions_unique stale_chat \<and>
   (\<exists>msg \<in> set (messages stale_chat). msg_id msg = 10 \<and>
      is_participant stale_chat (conversationId msg) 2) \<and>
   addReaction stale_chat no_faults 10 2 ''thumbsup'' = (Inl ''Reaction already exists'', stale_chat)"
  using addReaction_existing [of stale_chat 10 2 "''thumbsup''" no_faults]
  by (simp add: stale_chat_def chat_def hi_def thumbs_def same_reaction_def no_faults_def
      messages_pkey_def reactions_unique_def reaction_key_def is_participant_def prod_eq_iff)

text \<open>
  Without the condition on membership the statement fails: user 3 reacted to \<open>hi\<close> and is
  no longer a participant; membership is checked first, and the call fails with the
  authorization failure instead of ``Reaction already exists''.
\<close>

theorem addReaction_existing_counterexample:
  "same_reaction 10 3 ''thumbsup'' (hd (message_reactions left_chat)) \<and>
   hd (message_reactions left_chat) \<in> set (message_reactions left_chat) \<and>
   addReaction left_chat no_faults 10 3 ''thumbsup'' =
     (Inl ''Not authorized to view participants in this conversation'', left_chat) \<and>
   fst (addReaction left_chat no_faults 10 3 ''thumbsup'') \<noteq> Inl ''Reaction already exists''"
  by (simp add: left_chat_def chat_def hi_def same_reaction_def addReaction_def no_faults_def
      select_message_def single_def getConversationParticipants_def select_participants_def
      truthy_def)


subsection \<open>removeReaction\<close>

lemma delete_absent_reaction:
  assumes "\<forall>r \<in> set (message_reactions d). \<not> same_reaction m u e r"
  shows "delete_reaction d None m u e = Data d"
proof -
  from assms have "filter (\<lambda>r. \<not> same_reaction m u e r) (message_reactions d) = message_reactions d"
    by (simp add: filter_id_conv)
  then show ?thesis by (simp add: delete_reaction_def)
qed

text \<open>
  C6 (as amended). Removing a reaction that does not exist, by a participant and with the
  store answering the reads and the delete: \<^verbatim>\<open>removeReaction\<close> succeeds, the reaction rows
  are unchanged, the aggregates of other messages are unchanged, and the recomputation of
  the aggregate of the message is run again. Every entry of that aggregate is unchanged
  when it was consistent with the rows before. When the store also answers the
  recomputation and no row of the message carries an emoji naming a member of
  \<^verbatim>\<open>Object.prototype\<close>, the aggregate is consistent with the rows afterwards, whatever it was
  before.
\<close>

theorem removeReaction_absent:
  assumes "\<forall>r \<in> set (message_reactions d). \<not> same_reaction m u e r"
    and "fs SelectMessage = None" "fs SelectParticipants = None" "fs DeleteReaction = None"
    and "messages_pkey d" "msg \<in> set (messages d)" "msg_id msg = m"
    and "is_participant d (conversationId msg) u"
  shows "fst (removeReaction d fs m u e) = Inr () \<and>
         snd (removeReaction d fs m u e) = updateReactionCounts d fs m \<and>
         message_reactions (snd (removeReaction d fs m u e)) = message_reactions d \<and>
         (\<forall>m'. m' \<noteq> m \<longrightarrow>
            message_reaction_counts (snd (removeReaction d fs m u e)) m' =
              message_reaction_counts d m') \<and>
         (consistent d m \<longrightarrow>
            (\<forall>x. aggregate (snd (removeReaction d fs m u e)) m x = aggregate d m x)) \<and>
         (fs SelectReactions = None \<and> fs UpsertCounts = None \<and>
          (\<forall>r \<in> set (reactions_of d m). emoji r \<notin> set object_prototype_keys) \<longrightarrow>
            consistent (snd (removeReaction d fs m u e)) m)"
proof -
  have sel: "select_message d (fs SelectMessage) m = Data msg"
    using select_message_found [OF assms(5,6)] assms(2,7) by simp
  from getConversationParticipants_member [of d "conversationId msg" u fs, OF assms(8,3)]
  obtain ps where ps: "getConversationParticipants d fs (Some (conversationId msg)) u = (ps, None)"
    "u \<in> set ps" by blast
  have del: "delete_reaction d (fs DeleteReaction) m u e = Data d"
    using delete_absent_reaction [OF assms(1)] assms(4) by simp
  have run: "removeReaction d fs m u e = (Inr (), updateReactionCounts d fs m)"
    by (simp add: removeReaction_def sel ps truthy_def del)
  have heal: "consistent (updateReactionCounts d fs m) m"
    if "fs SelectReactions = None" "fs UpsertCounts = None"
      "\<forall>r \<in> set (reactions_of d m). emoji r \<notin> set object_prototype_keys"
    using that by (rule updateReactionCounts_recomputes)
  show ?thesis
    using heal
    by (simp add: run updateReactionCounts_other updateReactionCounts_keeps_consistent)
qed

theorem removeReaction_absent_witness:
  "message_reactions reacted_chat = [thumbs] \<and> \<not> same_reaction 10 1 ''heart'' thumbs \<and>
   no_faults SelectMessage = None \<and> no_faults SelectParticipants = None \<and>
   no_faults DeleteReaction = None \<and> no_faults SelectReactions = None \<and>
   no_faults UpsertCounts = None \<and>
   messages_pkey reacted_chat \<and> hi \<in> set (messages reacted_chat) \<and> msg_id hi = 10 \<and>
   is_participant reacted_chat (conversationId hi) 1 \<and> consistent reacted_chat 10 \<and>
   aggregate reacted_chat 10 ''thumbsup'' = Some (1, [2]) \<and>
   fst (removeReaction reacted_chat no_faults 10 1 ''heart'') = Inr () \<and>
   message_reactions (snd (removeReaction reacted_chat no_faults 10 1 ''heart'')) = [thumbs] \<and>
   aggregate (snd (removeReaction reacted_chat no_faults 10 1 ''heart'')) 10 ''thumbsup'' =
     Some (1, [2]) \<and>
   aggregate (snd (removeReaction reacted_chat no_faults 10 1 ''heart'')) 10 ''heart'' = None \<and>
   message_reactions stale_chat = [thumbs] \<and> \<not> consistent stale_chat 10 \<and>
   emoji thumbs \<notin> set object_prototype_keys \<and>
   consistent (snd (removeReaction stale_chat no_faults 10 1 ''heart'')) 10"
proof -
  have r: "message_reactions reacted_chat = [thumbs]" "message_reactions stale_chat = [thumbs]"
    "\<not> same_reaction 10 1 ''heart'' thumbs" "emoji thumbs \<notin> set object_prototype_keys"
    "reactions_of stale_chat 10 = [thumbs]"
    by (simp_all add: reacted_chat_def stale_chat_def chat_def thumbs_def same_reaction_def
        object_prototype_keys_def reactions_of_def)
  have h1: "\<forall>r \<in> set (message_reactions reacted_chat). \<not> same_reaction 10 1 ''heart'' r"
    "\<forall>r \<in> set (message_reactions stale_chat). \<not> same_reaction 10 1 ''heart'' r"
    "\<forall>r \<in> set (reactions_of stale_chat 10). emoji r \<notin> set object_prototype_keys"
    using r by simp_all
  have h2: "no_faults SelectMessage = None" "no_faults SelectParticipants = None"
    "no_faults DeleteReaction = None" "no_faults SelectReactions = None"
    "no_faults UpsertCounts = None" by (simp_all add: no_faults_def)
  have h3: "messages_pkey reacted_chat" "hi \<in> set (messages reacted_chat)" "msg_id hi = 10"
    "is_participant reacted_chat (conversationId hi) 1"
    by (simp_all add: messages_pkey_def reacted_chat_def chat_def hi_def is_participant_def)
  have h3': "messages_pkey stale_chat" "hi \<in> set (messages stale_chat)"
    "is_participant stale_chat (conversationId hi) 1"
    by (simp_all add: messages_pkey_def stale_chat_def chat_def hi_def is_participant_def)
  have h4: "consistent reacted_chat 10"
    by (auto simp: consistent_def aggregate_def tally_def reactions_of_def reacted_chat_def
        chat_def thumbs_def)
  have h5: "aggregate reacted_chat 10 ''thumbsup'' = Some (1, [2])"
    "aggregate reacted_chat 10 ''heart'' = None"
    by (simp_all add: reacted_chat_def chat_def aggregate_def)
  have stale: "\<not> consistent stale_chat 10"
  proof
    assume "consistent stale_chat 10"
    then have "aggregate stale_chat 10 ''thumbsup'' = tally (reactions_of stale_chat 10) ''thumbsup''"
      by (simp add: consistent_def)
    then show False
      by (simp add: aggregate_def tally_def reactions_of_def stale_chat_def chat_def thumbs_def)
  qed
  from removeReaction_absent [of reacted_chat 10 1 "''heart''" no_faults hi,
        OF h1(1) h2(1,2,3) h3] h4
  have c: "fst (removeReaction reacted_chat no_faults 10 1 ''heart'') = Inr ()"
    "message_reactions (snd (removeReaction reacted_chat no_faults 10 1 ''heart'')) =
       message_reactions reacted_chat"
    "aggregate (snd (removeReaction reacted_chat no_faults 10 1 ''heart'')) 10 ''thumbsup'' =
       aggregate reacted_chat 10 ''thumbsup''"
    "aggregate (snd (removeReaction reacted_chat no_faults 10 1 ''heart'')) 10 ''heart'' =
       aggregate reacted_chat 10 ''heart''"
    by blast+
  from removeReaction_absent [of stale_chat 10 1 "''heart''" no_faults hi,
        OF h1(2) h2(1,2,3) h3'(1,2) h3(3) h3'(3)] h2(4,5) h1(3)
  have c': "consistent (snd (removeReaction stale_chat no_faults 10 1 ''heart'')) 10"
    by blast
  show ?thesis using r h2 h3 h4 stale c' by (simp add: c h5)
qed

lemma stale_chat_reachable:
  "addReaction chat upsert_refused 10 2 ''thumbsup'' = (Inr (), stale_chat)"
  by (simp add: addReaction_def chat_def hi_def stale_chat_def thumbs_def upsert_refused_def
      no_faults_def select_message_def single_def getConversationParticipants_def
      select_participants_def truthy_def select_reaction_def same_reaction_def
      insert_reaction_def updateReactionCounts_def select_reactions_def
      object_prototype_keys_def upsert_counts_def)

text \<open>
  Without the condition on consistency the statement fails: the stale state is reached by
  a successful \<^verbatim>\<open>addReaction\<close> whose upsert was refused, and the removal of a reaction
  that does not exist then changes the aggregate of the message.
\<close>

theorem removeReaction_absent_counterexample:
  "\<not> same_reaction 10 1 ''heart'' thumbs \<and> message_reactions stale_chat = [thumbs] \<and>
   is_participant stale_chat 1 1 \<and>
   fst (removeReaction stale_chat no_faults 10 1 ''heart'') = Inr () \<and>
   aggregate stale_chat 10 ''thumbsup'' = None \<and>
   aggregate (snd (removeReaction stale_chat no_faults 10 1 ''heart'')) 10 ''thumbsup'' =
     Some (1, [2])"
  by (simp add: removeReaction_def chat_def hi_def stale_chat_def thumbs_def
      no_faults_def select_message_def single_def getConversationParticipants_def
      select_participants_def truthy_def same_reaction_def is_participant_def
      delete_reaction_def updateReactionCounts_def select_reactions_def
      object_prototype_keys_def upsert_counts_def aggregate_def)

subsection \<open>The aggregate after successful calls\<close>

text \<open>
  A successful \<^verbatim>\<open>addReaction\<close> or \<^verbatim>\<open>removeReaction\<close> whose recomputation is answered by the
  store leaves the aggregate of the message consistent with its reaction rows, provided
  no row of the message carries an emoji that names a member of \<^verbatim>\<open>Object.prototype\<close>. Under
  the unique constraint, which both calls preserve, the count of an entry is the number of
  distinct users who reacted with the emoji.
\<close>

lemma removeReaction_result:
  "(\<exists>err. removeReaction d fs m u e = (Inl err, d)) \<or>
   (\<exists>d1. delete_reaction d (fs DeleteReaction) m u e = Data d1 \<and>
         removeReaction d fs m u e = (Inr (), updateReactionCounts d1 fs m))"
  by (auto simp: removeReaction_def split: reply.splits prod.splits option.splits)

lemma reactions_of_updateReactionCounts [simp]:
  "reactions_of (updateReactionCounts d fs m) m' = reactions_of d m'"
  by (simp add: reactions_of_def)

lemma addReaction_recomputes:
  assumes "addReaction d fs m u e = (Inr (), d')"
    and "fs SelectReactions = None" "fs UpsertCounts = None"
    and "\<forall>r \<in> set (reactions_of d' m). emoji r \<notin> set object_prototype_keys"
  shows "consistent d' m"
proof -
  from addReaction_result [of d fs m u e] assms(1)
  obtain d1 where d': "d' = updateReactionCounts d1 fs m" by auto
  with assms(4) have "\<forall>r \<in> set (reactions_of d1 m). emoji r \<notin> set object_prototype_keys"
    by simp
  from updateReactionCounts_recomputes [OF assms(2,3) this] d' show ?thesis by simp
qed

lemma removeReaction_recomputes:
  assumes "removeReaction d fs m u e = (Inr (), d')"
    and "fs SelectReactions = None" "fs UpsertCounts = None"
    and "\<forall>r \<in> set (reactions_of d' m). emoji r \<notin> set object_prototype_keys"
  shows "consistent d' m"
proof -
  from removeReaction_result [of d fs m u e] assms(1)
  obtain d1 where d': "d' = updateReactionCounts d1 fs m" by auto
  with assms(4) have "\<forall>r \<in> set (reactions_of d1 m). emoji r \<notin> set object_prototype_keys"
    by simp
  from updateReactionCounts_recomputes [OF assms(2,3) this] d' show ?thesis by simp
qed

lemma tally_distinct_users:
  assumes "reactions_unique d" "tally (reactions_of d m) e = Some (n, us)"
  shows "n = length us \<and> distinct us \<and>
         set us = {u. \<exists>r \<in> set (message_reactions d). same_reaction m u e r}"
proof -
  let ?rs = "filter (\<lambda>r. emoji r = e) (reactions_of d m)"
  from assms(2) have us: "us = map userId ?rs" and n: "n = length ?rs"
    by (auto simp: tally_def split: list.splits)
  have "distinct (map reaction_key ?rs)"
    using assms(1) by (simp add: reactions_unique_def reactions_of_def distinct_map_filter)
  moreover have "map reaction_key ?rs = map (\<lambda>r. (m, userId r, e)) ?rs"
    by (rule map_cong) (simp_all add: reaction_key_def reactions_of_def)
  ultimately have "distinct (map (\<lambda>r. (m, userId r, e)) ?rs)"
    by simp
  then have "distinct (map userId ?rs)"
    by (simp add: distinct_map inj_on_def)
  moreover have "set (map userId ?rs) = {u. \<exists>r \<in> set (message_reactions d). same_reaction m u e r}"
    by (auto simp: reactions_of_def same_reaction_def)
  ultimately show ?thesis using us n by simp
qed

lemma reactions_unique_addReaction:
  assumes "reactions_unique d"
  shows "reactions_unique (snd (addReaction d fs m u e))"
proof -
  from addReaction_result [of d fs m u e]
  show ?thesis
  proof
    assume "\<exists>err. addReaction d fs m u e = (Inl err, d)"
    with assms show ?thesis by auto
  next
    assume "\<exists>d1. insert_reaction d (fs InsertReaction) \<lparr>messageId = m, userId = u, emoji = e\<rparr> = Data d1 \<and>
         addReaction d fs m u e = (Inr (), updateReactionCounts d1 fs m)"
    then obtain d1 where ins: "insert_reaction d (fs InsertReaction) \<lparr>messageId = m, userId = u, emoji = e\<rparr> = Data d1"
      and run: "addReaction d fs m u e = (Inr (), updateReactionCounts d1 fs m)" by blast
    from ins have "message_reactions d1 = message_reactions d @ [\<lparr>messageId = m, userId = u, emoji = e\<rparr>]"
      and "\<forall>x \<in> set (message_reactions d). \<not> same_reaction m u e x"
      by (cases "fs InsertReaction"; auto simp: insert_reaction_def answer_def split: if_splits fault.splits)+
    with assms have "reactions_unique d1"
      by (auto simp: reactions_unique_def reaction_key_def same_reaction_def)
    then show ?thesis by (simp add: run reactions_unique_def)
  qed
qed

lemma reactions_unique_removeReaction:
  assumes "reactions_unique d"
  shows "reactions_unique (snd (removeReaction d fs m u e))"
proof -
  from removeReaction_result [of d fs m u e]
  show ?thesis
  proof
    assume "\<exists>err. removeReaction d fs m u e = (Inl err, d)"
    with assms show ?thesis by auto
  next
    assume "\<exists>d1. delete_reaction d (fs DeleteReaction) m u e = Data d1 \<and>
         removeReaction d fs m u e = (Inr (), updateReactionCounts d1 fs m)"
    then obtain d1 where del: "delete_reaction d (fs DeleteReaction) m u e = Data d1"
      and run: "removeReaction d fs m u e = (Inr (), updateReactionCounts d1 fs m)" by blast
    from del have "message_reactions d1 = filter (\<lambda>r. \<not> same_reaction m u e r) (message_reactions d)"
      by (cases "fs DeleteReaction"; auto simp: delete_reaction_def answer_def split: fault.splits)
    with assms have "reactions_unique d1"
      by (simp add: reactions_unique_def distinct_map_filter)
    then show ?thesis by (simp add: run reactions_unique_def)
  qed
qed

text \<open>
  User 2 reacts, user 1 reacts, user 2 removes the reaction: the aggregate entry goes
  through one user, two users (in row order), and the remaining user.
\<close>

lemma reaction_scenario:
  "aggregate (snd (removeReaction
      (snd (addReaction (snd (addReaction chat no_faults 10 2 ''thumbsup'')) no_faults 10 1 ''thumbsup''))
      no_faults 10 2 ''thumbsup'')) 10 ''thumbsup'' = Some (1, [1]) \<and>
   aggregate (snd (addReaction (snd (addReaction chat no_faults 10 2 ''thumbsup'')) no_faults 10 1 ''thumbsup''))
      10 ''thumbsup'' = Some (2, [2, 1])"
  by (simp add: addReaction_def removeReaction_def chat_def hi_def
      no_faults_def select_message_def single_def getConversationParticipants_def
      select_participants_def truthy_def select_reaction_def same_reaction_def
      insert_reaction_def delete_reaction_def updateReactionCounts_def select_reactions_def
      object_prototype_keys_def upsert_counts_def aggregate_def)

subsection \<open>The subscription table\<close>

lemma update_fresh: "k \<notin> fst ` set al \<Longrightarrow> AList.update k v al = al @ [(k, v)]"
  by (induction al) auto

lemma set_delete: "set (AList.delete k al) = {p \<in> set al. fst p \<noteq> k}"
  by (auto simp: AList.delete_eq)





lemma unsubscribe_absent: "map_of (channels (unsubscribe n s)) n = None"
  by (cases "map_of (channels s) n")
    (simp_all add: unsubscribe_def supabase_removeChannel_def Let_def delete_conv')

lemma subscribe_named_eq:
  "subscribe_named n s =
     (channel_seq (unsubscribe n s),
      (unsubscribe n s)\<lparr>client_channels :=
                          client_channels (unsubscribe n s) @ [(channel_seq (unsubscribe n s), n)],
                        channel_seq := Suc (channel_seq (unsubscribe n s)),
                        channels := channels (unsubscribe n s) @ [(n, channel_seq (unsubscribe n s))]\<rparr>)"
proof -
  have "n \<notin> fst ` set (channels (unsubscribe n s))"
    using unsubscribe_absent [of n s] by (simp add: map_of_eq_None_iff)
  then show ?thesis
    by (simp add: subscribe_named_def supabase_channel_def update_fresh)
qed








lemma unsubscribe_seq [simp]: "channel_seq (unsubscribe n s) = channel_seq s"
  by (cases "map_of (channels s) n")
    (simp_all add: unsubscribe_def supabase_removeChannel_def Let_def)










lemma resubscribe_example:
  "run [SubscribeToMessages 7, SubscribeToMessages 7] initial =
     \<lparr>channels = [(''messages:7'', 1)], service_userId = None,
      client_channels = [(1, ''messages:7'')], channel_seq = 2, published = []\<rparr>"
  by (simp add: run_def initial_def subscribeToMessages_def subscribe_named_def
      unsubscribe_def supabase_channel_def supabase_removeChannel_def number_string_def
      digits.simps Let_def)

subsection \<open>Typing indicators\<close>

lemma typingUsers_member:
  "x \<in> set (typingUsers self presenceState) \<longleftrightarrow>
     (\<exists>key p rest. (key, p # rest) \<in> set presenceState \<and> presence_typing p \<and>
        Some (presence_userId p) \<noteq> self \<and> x = (presence_userId p, presence_username p))"
proof
  assume "x \<in> set (typingUsers self presenceState)"
  then obtain key presences where kp: "(key, presences) \<in> set presenceState"
    and x: "x \<in> set (case presences of [] \<Rightarrow> []
                      | p # rest \<Rightarrow>
                          if presence_typing p \<and> Some (presence_userId p) \<noteq> self
                          then [(presence_userId p, presence_username p)] else [])"
    by (auto simp: typingUsers_def)
  from x obtain p rest where "presences = p # rest" "presence_typing p"
    "Some (presence_userId p) \<noteq> self" "x = (presence_userId p, presence_username p)"
    by (cases presences) (auto split: if_splits)
  with kp show "\<exists>key p rest. (key, p # rest) \<in> set presenceState \<and> presence_typing p \<and>
        Some (presence_userId p) \<noteq> self \<and> x = (presence_userId p, presence_username p)"
    by blast
next
  assume "\<exists>key p rest. (key, p # rest) \<in> set presenceState \<and> presence_typing p \<and>
        Some (presence_userId p) \<noteq> self \<and> x = (presence_userId p, presence_username p)"
  then obtain key p rest where "(key, p # rest) \<in> set presenceState" "presence_typing p"
    "Some (presence_userId p) \<noteq> self" "x = (presence_userId p, presence_username p)"
    by blast
  then show "x \<in> set (typingUsers self presenceState)"
    by (force simp: typingUsers_def)
qed

lemma typingUsers_Cons:
  "typingUsers self ((key, presences) # st) =
     (case presences of
        [] \<Rightarrow> []
      | p # rest \<Rightarrow>
          if presence_typing p \<and> Some (presence_userId p) \<noteq> self
          then [(presence_userId p, presence_username p)]
          else []) @ typingUsers self st"
  by (simp add: typingUsers_def)

lemma marked_typing_Cons:
  "marked_typing self ((key, presences) # st) =
     map (\<lambda>p. (presence_userId p, presence_username p))
       (filter (\<lambda>p. presence_typing p \<and> Some (presence_userId p) \<noteq> self) presences)
     @ marked_typing self st"
  by (simp add: marked_typing_def)

lemma typingUsers_single:
  "list_all (\<lambda>(key, presences). length presences \<le> 1) presenceState \<Longrightarrow>
   typingUsers self presenceState = marked_typing self presenceState"
proof (induction presenceState)
  case Nil
  show ?case by (simp add: typingUsers_def marked_typing_def)
next
  case (Cons a st)
  obtain key ps where a: "a = (key, ps)" by (cases a)
  from Cons.prems a have len: "length ps \<le> 1" and rest: "list_all (\<lambda>(key, presences). length presences \<le> 1) st"
    by simp_all
  from Cons.IH [OF rest] have IH: "typingUsers self st = marked_typing self st" .
  show ?case
  proof (cases ps)
    case Nil
    then show ?thesis by (simp only: a typingUsers_Cons marked_typing_Cons IH) simp
  next
    case (Cons p rest')
    with len have "ps = [p]" by simp
    then show ?thesis by (simp only: a typingUsers_Cons marked_typing_Cons IH) simp
  qed
qed

lemma marked_typing_member:
  "(key, presences) \<in> set st \<Longrightarrow> p \<in> set presences \<Longrightarrow> presence_typing p \<Longrightarrow>
   Some (presence_userId p) \<noteq> self \<Longrightarrow>
   (presence_userId p, presence_username p) \<in> set (marked_typing self st)"
proof (induction st)
  case Nil
  then show ?case by simp
next
  case (Cons a st)
  obtain k ps where a: "a = (k, ps)" by (cases a)
  show ?case
  proof (cases "(key, presences) = a")
    case True
    with a Cons.prems have "p \<in> set ps" by simp
    with Cons.prems(3,4) have
      "(presence_userId p, presence_username p) \<in>
         set (map (\<lambda>p. (presence_userId p, presence_username p))
               (filter (\<lambda>p. presence_typing p \<and> Some (presence_userId p) \<noteq> self) ps))"
      by (simp add: image_iff) blast
    then show ?thesis by (simp only: a marked_typing_Cons set_append) blast
  next
    case False
    with Cons.prems have "(key, presences) \<in> set st" by simp
    from Cons.IH [OF this Cons.prems(2,3,4)] show ?thesis
      by (simp only: a marked_typing_Cons set_append) blast
  qed
qed

lemma typingUsers_subset:
  "set (typingUsers self presenceState) \<subseteq> set (marked_typing self presenceState)"
proof
  fix x assume "x \<in> set (typingUsers self presenceState)"
  then obtain key p rest where k: "(key, p # rest) \<in> set presenceState"
    and p: "presence_typing p" "Some (presence_userId p) \<noteq> self"
    and x: "x = (presence_userId p, presence_username p)"
    using typingUsers_member [of x self presenceState] by blast
  have "p \<in> set (p # rest)" by simp
  from marked_typing_member [OF k this p] x
  show "x \<in> set (marked_typing self presenceState)" by simp
qed

text \<open>
  C9 (as amended). On a sync event the list handed to \<^verbatim>\<open>onTypingChange\<close> holds exactly the
  pairs of user id and username of the first presence record of a key that is marked
  typing and whose user id is not the service's own; the service's own user id is never
  in it. Every user in the list is marked typing in the presence state, and when no key
  holds more than one record the list is the list of all users marked typing other than
  the service's own.
\<close>

theorem typingUsers_exact:
  "set (typingUsers self presenceState) =
     {(presence_userId p, presence_username p) | key p rest.
        (key, p # rest) \<in> set presenceState \<and> presence_typing p \<and>
        Some (presence_userId p) \<noteq> self} \<and>
   u \<notin> fst ` set (typingUsers (Some u) presenceState) \<and>
   set (typingUsers self presenceState) \<subseteq> set (marked_typing self presenceState) \<and>
   (list_all (\<lambda>(key, presences). length presences \<le> 1) presenceState \<longrightarrow>
      typingUsers self presenceState = marked_typing self presenceState)"
proof (intro conjI impI)
  show "set (typingUsers self presenceState) =
     {(presence_userId p, presence_username p) | key p rest.
        (key, p # rest) \<in> set presenceState \<and> presence_typing p \<and>
        Some (presence_userId p) \<noteq> self}"
    using typingUsers_member [of _ self presenceState] by blast
  show "u \<notin> fst ` set (typingUsers (Some u) presenceState)"
    using typingUsers_member [of _ "Some u" presenceState] by force
  show "set (typingUsers self presenceState) \<subseteq> set (marked_typing self presenceState)"
    by (rule typingUsers_subset)
  show "typingUsers self presenceState = marked_typing self presenceState"
    if "list_all (\<lambda>(key, presences). length presences \<le> 1) presenceState"
    using that by (rule typingUsers_single)
qed

theorem typingUsers_exact_witness:
  "list_all (\<lambda>(key, presences). length presences \<le> 1) typing_scene \<and>
   marked_typing (Some 2) typing_scene = [(1, ''alice'')] \<and>
   typingUsers (Some 2) typing_scene = [(1, ''alice'')] \<and>
   1 \<notin> fst ` set (typingUsers (Some 1) typing_scene)"
proof -
  have h: "list_all (\<lambda>(key, presences). length presences \<le> 1) typing_scene"
    by (simp add: typing_scene_def)
  have m: "marked_typing (Some 2) typing_scene = [(1, ''alice'')]"
    by (simp add: marked_typing_def typing_scene_def)
  from typingUsers_exact [of "Some 2" typing_scene] h
  have 1: "typingUsers (Some 2) typing_scene = marked_typing (Some 2) typing_scene" by blast
  from typingUsers_exact [of _ typing_scene 1]
  have 2: "1 \<notin> fst ` set (typingUsers (Some 1) typing_scene)" by blast
  from h m 1 2 show ?thesis by simp
qed

text \<open>
  Read over every presence record the statement fails: user 2 has two records under one
  key, the second of them typing. The handler reads only \<^verbatim>\<open>presences[0]\<close>, and the list
  handed to user 1 is empty although user 2 is marked typing.
\<close>

theorem typingUsers_exact_counterexample:
  "marked_typing (Some 1) second_session = [(2, ''bob'')] \<and>
   typingUsers (Some 1) second_session = []"
  by (simp add: marked_typing_def typingUsers_def second_session_def)

lemma typing_scenario:
  "typingUsers (Some 2) typing_scene = [(1, ''alice'')] \<and> typingUsers (Some 1) typing_scene = []"
  by (simp add: typingUsers_def typing_scene_def)

text \<open>
  Channel names: decimal rendering is injective, so the name \<open>typing:c\<close> enters the
  table only through \<^verbatim>\<open>subscribeToTyping\<close> of the conversation \<open>c\<close>.
\<close>

lemma digit_inj:
  assumes "a < 10" "b < 10" "''0123456789'' ! a = ''0123456789'' ! b"
  shows "a = b"
proof -
  have "distinct ''0123456789''" by simp
  moreover have "a < length ''0123456789''" "b < length ''0123456789''" using assms by simp_all
  ultimately show ?thesis using assms(3) by (simp only: nth_eq_iff_index_eq)
qed

lemma digits_nonempty: "digits n \<noteq> []"
  by (subst digits.simps) simp

lemma digits_not_minus: "hd (digits n) \<noteq> CHR ''-''"
proof (induction n rule: digits.induct)
  case (1 n)
  show ?case
  proof (cases "n < 10")
    case True
    then have "n \<in> {0,1,2,3,4,5,6,7,8,9}" by auto
    then show ?thesis by (subst digits.simps) auto
  next
    case False
    with 1 digits_nonempty [of "n div 10"] show ?thesis
      by (subst digits.simps) simp
  qed
qed

lemma digits_inj: "digits n = digits m \<Longrightarrow> n = m"
proof (induction n arbitrary: m rule: digits.induct)
  case (1 n)
  show ?case
  proof (cases "n < 10")
    case n: True
    show ?thesis
    proof (cases "m < 10")
      case True
      with n "1.prems" show ?thesis
        by (subst (asm) digits.simps, subst (asm) (2) digits.simps) (simp add: digit_inj)
    next
      case False
      with n "1.prems" digits_nonempty [of "m div 10"] show ?thesis
        by (subst (asm) digits.simps, subst (asm) (2) digits.simps) simp
    qed
  next
    case n: False
    show ?thesis
    proof (cases "m < 10")
      case True
      with n "1.prems" digits_nonempty [of "n div 10"] show ?thesis
        by (subst (asm) digits.simps, subst (asm) (2) digits.simps) simp
    next
      case False
      with n "1.prems" have eq: "digits (n div 10) = digits (m div 10)"
        and d: "''0123456789'' ! (n mod 10) = ''0123456789'' ! (m mod 10)"
        by (subst (asm) digits.simps, subst (asm) (2) digits.simps, simp)+
      from "1.IH" [OF n eq] have "n div 10 = m div 10" .
      moreover from d have "n mod 10 = m mod 10" by (intro digit_inj) simp_all
      ultimately show ?thesis by (metis div_mult_mod_eq)
    qed
  qed
qed

lemma number_string_inj: "number_string i = number_string j \<Longrightarrow> i = j"
proof -
  assume eq: "number_string i = number_string j"
  have neg: "hd (number_string k) = CHR ''-'' \<longleftrightarrow> k < 0" for k
    using digits_not_minus [of "nat k"] by (simp add: number_string_def)
  from eq neg [of i] neg [of j] have same: "i < 0 \<longleftrightarrow> j < 0" by simp
  show "i = j"
  proof (cases "i < 0")
    case True
    with same eq have "digits (nat (- i)) = digits (nat (- j))" by (simp add: number_string_def)
    then have "nat (- i) = nat (- j)" by (rule digits_inj)
    with True same show ?thesis by simp
  next
    case False
    with same eq have "digits (nat i) = digits (nat j)" by (simp add: number_string_def)
    then have "nat i = nat j" by (rule digits_inj)
    with False same show ?thesis by simp
  qed
qed

lemma keys_unsubscribe: "fst ` set (channels (unsubscribe n s)) \<subseteq> fst ` set (channels s)"
  by (cases "map_of (channels s) n")
    (auto simp: unsubscribe_def supabase_removeChannel_def Let_def set_delete)

lemma keys_subscribe_named:
  "fst ` set (channels (snd (subscribe_named n s))) \<subseteq> insert n (fst ` set (channels s))"
  using keys_unsubscribe [of n s] by (auto simp: subscribe_named_eq)

lemma keys_unsubscribeAll: "channels (unsubscribeAll s) = []"
  by (simp add: unsubscribeAll_def Let_def)

lemma typing_key_step:
  assumes "''typing:'' @ number_string c \<in> fst ` set (channels (step x s))"
  shows "x = SubscribeToTyping c \<or> ''typing:'' @ number_string c \<in> fst ` set (channels s)"
proof (cases x)
  case (SubscribeToMessages c')
  with assms keys_subscribe_named [of "''messages:'' @ number_string c'" s] show ?thesis
    by (auto simp: subscribeToMessages_def)
next
  case SubscribeToUserStatus
  with assms keys_subscribe_named [of "''user-status''" s] show ?thesis
    by (auto simp: subscribeToUserStatus_def)
next
  case SubscribeToNotifications
  with assms keys_subscribe_named [of "''notifications''" s] show ?thesis
    by (cases "subscribe_named ''notifications'' s")
      (auto simp: subscribeToNotifications_def split: if_splits)
next
  case SubscribeToMessageReactions
  with assms keys_subscribe_named [of "''message-reactions''" s] show ?thesis
    by (auto simp: subscribeToMessageReactions_def)
next
  case (SubscribeToConversationParticipants c')
  with assms keys_subscribe_named [of "''participants:'' @ number_string c'" s] show ?thesis
    by (auto simp: subscribeToConversationParticipants_def)
next
  case (SubscribeToTyping c')
  with assms keys_subscribe_named [of "''typing:'' @ number_string c'" s] show ?thesis
    by (auto simp: subscribeToTyping_def dest: number_string_inj)
next
  case (Unsubscribe n)
  with assms keys_unsubscribe [of n s] show ?thesis by auto
next
  case (SendTyping c' n t)
  with assms show ?thesis by (auto simp: sendTyping_def split: option.splits if_splits)
qed (use assms in \<open>auto simp: initialize_def cleanup_def keys_unsubscribeAll\<close>)

lemma typing_key_fold:
  assumes "''typing:'' @ number_string c \<in> fst ` set (channels (fold step cs s))"
  shows "SubscribeToTyping c \<in> set cs \<or> ''typing:'' @ number_string c \<in> fst ` set (channels s)"
  using assms
proof (induction cs arbitrary: s)
  case Nil
  then show ?case by simp
next
  case (Cons x cs)
  from Cons.IH [of "step x s"] Cons.prems
  have "SubscribeToTyping c \<in> set cs \<or>
        ''typing:'' @ number_string c \<in> fst ` set (channels (step x s))" by simp
  with typing_key_step [of c x s] show ?case by auto
qed

lemma typing_channel_origin:
  assumes "SubscribeToTyping c \<notin> set cs"
  shows "map_of (channels (run cs initial)) (''typing:'' @ number_string c) = None"
proof -
  have "''typing:'' @ number_string c \<notin> fst ` set (channels (run cs initial))"
    using typing_key_fold [of c cs initial] assms by (auto simp: run_def initial_def)
  then show ?thesis by (simp add: map_of_eq_None_iff)
qed

text \<open>
  C10. \<^verbatim>\<open>sendTyping\<close> leaves the whole state as it was when the service has no user id or
  the table has no channel under the conversation's typing name, which is the case after
  every sequence of calls on a fresh service without a \<^verbatim>\<open>subscribeToTyping\<close> of the
  conversation; whenever it changes the state, it appends one presence record of the
  service's user to the publications of the channel stored under that name and changes
  nothing else.
\<close>

theorem sendTyping_silent:
  "(no_user (service_userId s) \<or>
    map_of (channels s) (''typing:'' @ number_string c) = None
      \<longrightarrow> sendTyping c name t s = s) \<and>
   (SubscribeToTyping c \<notin> set cs
      \<longrightarrow> sendTyping c name t (run cs initial) = run cs initial) \<and>
   (sendTyping c name t s \<noteq> s \<longrightarrow>
      (\<exists>ch user. map_of (channels s) (''typing:'' @ number_string c) = Some ch \<and>
         service_userId s = Some user \<and>
         sendTyping c name t s =
           s\<lparr>published := published s @
               [(ch, \<lparr>presence_userId = user, presence_username = name,
                      presence_typing = t\<rparr>)]\<rparr>))"
proof (intro conjI impI)
  assume "no_user (service_userId s) \<or>
          map_of (channels s) (''typing:'' @ number_string c) = None"
  then show "sendTyping c name t s = s"
    by (auto simp: sendTyping_def no_user_def split: option.splits)
next
  assume "SubscribeToTyping c \<notin> set cs"
  from typing_channel_origin [OF this]
  show "sendTyping c name t (run cs initial) = run cs initial"
    by (simp add: sendTyping_def split: option.splits)
next
  assume "sendTyping c name t s \<noteq> s"
  then show "\<exists>ch user. map_of (channels s) (''typing:'' @ number_string c) = Some ch \<and>
         service_userId s = Some user \<and>
         sendTyping c name t s =
           s\<lparr>published := published s @
               [(ch, \<lparr>presence_userId = user, presence_username = name,
                      presence_typing = t\<rparr>)]\<rparr>"
    by (auto simp: sendTyping_def split: option.splits if_splits)
qed

theorem sendTyping_silent_witness:
  "no_user (service_userId initial) \<and>
   sendTyping 5 ''alice'' True initial = initial \<and>
   map_of (channels (initialize 1 initial)) (''typing:'' @ number_string 5) = None \<and>
   sendTyping 5 ''alice'' True (initialize 1 initial) = initialize 1 initial \<and>
   SubscribeToTyping 5 \<notin> set [Initialize 1, SubscribeToTyping 6] \<and>
   sendTyping 5 ''alice'' True (run [Initialize 1, SubscribeToTyping 6] initial) =
     run [Initialize 1, SubscribeToTyping 6] initial \<and>
   published (sendTyping 5 ''alice'' True (snd (subscribeToTyping 5 (initialize 1 initial)))) =
     [(0, \<lparr>presence_userId = 1, presence_username = ''alice'', presence_typing = True\<rparr>)]"
proof -
  have h1: "no_user (service_userId initial)" by (simp add: no_user_def initial_def)
  have h2: "map_of (channels (initialize 1 initial)) (''typing:'' @ number_string 5) = None"
    by (simp add: initialize_def initial_def)
  have h3: "SubscribeToTyping 5 \<notin> set [Initialize 1, SubscribeToTyping 6]" by simp
  from sendTyping_silent [of initial 5 "''alice''" True] h1
  have c1: "sendTyping 5 ''alice'' True initial = initial" by blast
  from sendTyping_silent [of "initialize 1 initial" 5 "''alice''" True] h2
  have c2: "sendTyping 5 ''alice'' True (initialize 1 initial) = initialize 1 initial" by blast
  from sendTyping_silent [of _ 5 "''alice''" True "[Initialize 1, SubscribeToTyping 6]"] h3
  have c3: "sendTyping 5 ''alice'' True (run [Initialize 1, SubscribeToTyping 6] initial) =
     run [Initialize 1, SubscribeToTyping 6] initial" by blast
  have c4: "published (sendTyping 5 ''alice'' True (snd (subscribeToTyping 5 (initialize 1 initial)))) =
     [(0, \<lparr>presence_userId = 1, presence_username = ''alice'', presence_typing = True\<rparr>)]"
    by (simp add: sendTyping_def subscribeToTyping_def subscribe_named_def unsubscribe_def
        supabase_channel_def initialize_def initial_def)
  from h1 h2 h3 c1 c2 c3 c4 show ?thesis by simp
qed

end
